theory Spec2Isabelle
  imports Complex_Main "HOL-Library.AList"
begin

section \<open>JavaScript numbers\<close>

text \<open>
  A JavaScript \<^verbatim>\<open>number\<close> is an IEEE 754 binary64 value: a finite double, given here by the
  rational it denotes, one of the two infinities, or NaN. The sign of zero is not
  represented: the ledger only adds, subtracts, takes absolute values and compares with
  \<^verbatim>\<open>>\<close>, and none of these tells the two zeros apart or gives a non-zero result
  that depends on the sign of a zero.
\<close>

datatype number = Fin rat | PInf | NInf | NaN

text \<open>The number of binary digits of a positive integer.\<close>

function bit_length :: "int \<Rightarrow> int" where
  "bit_length n = (if n \<le> 0 then 0 else 1 + bit_length (n div 2))"
  by pat_completeness auto
termination
  by (relation "measure nat") auto

declare bit_length.simps [simp del]

text \<open>Numerator and denominator of \<open>n / d / 2 ^ s\<close>, for any integer \<open>s\<close>.\<close>

definition scaled :: "int \<Rightarrow> int \<Rightarrow> int \<Rightarrow> int \<times> int" where
  "scaled n d s = (if 0 \<le> s then (n, d * 2 ^ nat s) else (n * 2 ^ nat (- s), d))"

text \<open>The binary exponent of the positive rational \<open>n / d\<close>: the \<open>e\<close> with
  \<open>2 ^ e \<le> n / d < 2 ^ (e + 1)\<close>.\<close>

definition floor_log2 :: "int \<Rightarrow> int \<Rightarrow> int" where
  "floor_log2 n d =
     (let k = bit_length n - bit_length d
      in case scaled n d k of (N, D) \<Rightarrow> if D \<le> N then k else k - 1)"

text \<open>The integer nearest to \<open>N / D\<close>, the even one of the two when it is half way.\<close>

definition round_half_even :: "int \<Rightarrow> int \<Rightarrow> int" where
  "round_half_even N D =
     (let f = N div D; r = N mod D
      in if 2 * r < D then f else if D < 2 * r then f + 1 else if even f then f else f + 1)"

text \<open>
  The Number value of a rational (round to nearest, ties to even): a number literal of
  the source and the result of an addition are rounded so. With \<open>e\<close> the binary exponent
  of the positive rational \<open>a\<close>, not below that of the smallest normal double, the
  significand \<open>m\<close> is \<open>a\<close> in units of \<open>2 ^ s\<close>, \<open>s = e - 52\<close>, rounded to an integer (of at
  most 53 digits, or \<open>2 ^ 53\<close>), and the double is \<open>m * 2 ^ s\<close>; a rounded magnitude of
  \<open>2 ^ 1024\<close> or more is an infinity.
\<close>

definition dyadic :: "int \<Rightarrow> int \<Rightarrow> rat" where
  "dyadic m s = (if 0 \<le> s then of_int (m * 2 ^ nat s) else of_int m / of_int (2 ^ nat (- s)))"

definition significand :: "rat \<Rightarrow> int \<times> int" where
  "significand a =
     (case quotient_of a of
        (n, d) \<Rightarrow>
          (let e = max (floor_log2 n d) (- 1022);
               s = e - 52
           in (case scaled n d s of (N, D) \<Rightarrow> round_half_even N D, s)))"

definition number_value :: "rat \<Rightarrow> number" where
  "number_value q =
     (if q = 0 then Fin 0
      else
        (case significand (abs q) of
           (m, s) \<Rightarrow>
             if 971 < s \<or> (s = 971 \<and> 2 ^ 53 \<le> m) then (if 0 < q then PInf else NInf)
             else Fin (if 0 < q then dyadic m s else - dyadic m s)))"

text \<open>The operators \<^verbatim>\<open>+\<close>, unary and binary \<^verbatim>\<open>-\<close>, \<^verbatim>\<open>Math.abs\<close> and \<^verbatim>\<open>>\<close> on numbers.\<close>

fun fadd :: "number \<Rightarrow> number \<Rightarrow> number" where
  "fadd NaN y = NaN"
| "fadd x NaN = NaN"
| "fadd PInf NInf = NaN"
| "fadd NInf PInf = NaN"
| "fadd PInf y = PInf"
| "fadd x PInf = PInf"
| "fadd NInf y = NInf"
| "fadd x NInf = NInf"
| "fadd (Fin a) (Fin b) = number_value (a + b)"

fun fneg :: "number \<Rightarrow> number" where
  "fneg (Fin a) = Fin (- a)"
| "fneg PInf = NInf"
| "fneg NInf = PInf"
| "fneg NaN = NaN"

definition fsub :: "number \<Rightarrow> number \<Rightarrow> number" where
  "fsub x y = fadd x (fneg y)"

fun fabs :: "number \<Rightarrow> number" where
  "fabs (Fin a) = Fin (abs a)"
| "fabs PInf = PInf"
| "fabs NInf = PInf"
| "fabs NaN = NaN"

fun fgt :: "number \<Rightarrow> number \<Rightarrow> bool" where
  "fgt NaN y = False"
| "fgt x NaN = False"
| "fgt NInf y = False"
| "fgt x PInf = False"
| "fgt PInf y = True"
| "fgt x NInf = True"
| "fgt (Fin a) (Fin b) = (b < a)"

section \<open>Data model\<close>

text \<open>
  The ledger of \<^verbatim>\<open>fzamperin/double-ledger\<close>. A JavaScript \<^verbatim>\<open>number\<close> is a \<^typ>\<open>number\<close>
  (an IEEE 754 double, see above), a \<^verbatim>\<open>string\<close> a \<^typ>\<open>string\<close>, an optional field an
  \<^typ>\<open>'a option\<close>.
\<close>

text \<open>\<^verbatim>\<open>enums/direction-enum.ts\<close>: the two tokens of the \<^verbatim>\<open>Direction\<close> enum.\<close>

datatype Direction = DEBIT | CREDIT

text \<open>\<^verbatim>\<open>models/account-model.ts\<close>, also the shape of a row of table \<^verbatim>\<open>accounts\<close>.\<close>

record AccountModel =
  a_id :: string
  a_name :: string
  a_balance :: number
  a_direction :: Direction

text \<open>\<^verbatim>\<open>schemas/transaction-schema.ts\<close>: the inferred input types.\<close>

record TransactionEntryInput =
  ei_id :: "string option"
  ei_account_id :: string
  ei_amount :: number
  ei_direction :: Direction

record CreateTransactionInput =
  ti_id :: "string option"
  ti_name :: "string option"
  ti_entries :: "TransactionEntryInput list"

text \<open>\<^verbatim>\<open>models/transaction-model.ts\<close>; an entry model is also a row of \<^verbatim>\<open>transaction_entries\<close>.\<close>

record TransactionEntryModel =
  e_id :: string
  e_transactionId :: string
  e_accountId :: string
  e_amount :: number
  e_direction :: Direction

record TransactionModel =
  t_id :: string
  t_name :: string
  t_date :: nat
  t_entries :: "TransactionEntryModel list"

text \<open>A row of table \<^verbatim>\<open>transactions\<close> (\<^verbatim>\<open>TransactionRow\<close>); the date is kept as the
  timestamp it renders.\<close>

record TransactionRow =
  row_id :: string
  row_name :: string
  row_date :: nat

text \<open>The response types of \<^verbatim>\<open>schemas/transaction-schema.ts\<close>.\<close>

record TransactionEntryResponse =
  r_id :: string
  r_account_id :: string
  r_amount :: number
  r_direction :: Direction

record TransactionResponse =
  tr_id :: string
  tr_name :: string
  tr_entries :: "TransactionEntryResponse list"

text \<open>The three tables of \<^verbatim>\<open>db.ts\<close>, each a list of rows in insertion order.\<close>

record db =
  accounts :: "AccountModel list"
  transactions :: "TransactionRow list"
  transaction_entries :: "TransactionEntryModel list"

text \<open>
  What \<^verbatim>\<open>createTransaction\<close> throws: the two \<^verbatim>\<open>Error\<close>s of the service, told apart by their
  message (the totals, the account id), and the constraint error of the database driver.
\<close>

datatype error =
  Unbalanced number number
  | AccountNotFound string
  | StorageFailure

text \<open>The calls the service makes on its two collaborators, in the order it makes them.\<close>

datatype access = GetAccount string | CreateWithBalanceUpdates

section \<open>Accounts repository and service\<close>

text \<open>\<^verbatim>\<open>SELECT ... WHERE id = ?\<close> with \<^verbatim>\<open>stmt.get\<close>: the first matching row, or \<^verbatim>\<open>null\<close>.\<close>

definition findById :: "AccountModel list \<Rightarrow> string \<Rightarrow> AccountModel option" where
  "findById rows i = find (\<lambda>r. a_id r = i) rows"

definition getAccount :: "db \<Rightarrow> string \<Rightarrow> AccountModel option" where
  "getAccount d i = findById (accounts d) i"

text \<open>\<^verbatim>\<open>UPDATE accounts SET balance = ? WHERE id = ?\<close>, once per update, in order.\<close>

definition update_balance :: "string \<times> number \<Rightarrow> AccountModel list \<Rightarrow> AccountModel list" where
  "update_balance u rows =
     map (\<lambda>r. if a_id r = fst u then r\<lparr>a_balance := snd u\<rparr> else r) rows"

fun updateBalances :: "(string \<times> number) list \<Rightarrow> AccountModel list \<Rightarrow> AccountModel list" where
  "updateBalances [] rows = rows"
| "updateBalances (u # us) rows = updateBalances us (update_balance u rows)"

section \<open>Transactions service: validation and balance calculation\<close>

text \<open>The loop of \<^verbatim>\<open>validateEntriesBalance\<close> over \<^verbatim>\<open>(debitTotal, creditTotal)\<close>.\<close>

fun sum_sides :: "TransactionEntryInput list \<Rightarrow> number \<times> number \<Rightarrow> number \<times> number" where
  "sum_sides [] (debitTotal, creditTotal) = (debitTotal, creditTotal)"
| "sum_sides (entry # rest) (debitTotal, creditTotal) =
     (if ei_direction entry = DEBIT
      then sum_sides rest (fadd debitTotal (ei_amount entry), creditTotal)
      else if ei_direction entry = CREDIT
      then sum_sides rest (debitTotal, fadd creditTotal (ei_amount entry))
      else sum_sides rest (debitTotal, creditTotal))"

definition validateEntriesBalance :: "TransactionEntryInput list \<Rightarrow> error + unit" where
  "validateEntriesBalance entries =
     (case sum_sides entries (Fin 0, Fin 0) of
        (debitTotal, creditTotal) \<Rightarrow>
          if fgt (fabs (fsub debitTotal creditTotal)) (number_value (1 / 1000))
          then Inl (Unbalanced debitTotal creditTotal)
          else Inr ())"

text \<open>
  The loop of \<^verbatim>\<open>calculateBalanceUpdates\<close>. \<^verbatim>\<open>balanceMap\<close> is a JavaScript \<^verbatim>\<open>Map\<close>, which
  iterates in insertion order and keeps the position of a key that is set again: an
  association list under \<^const>\<open>AList.update\<close>. The second component records the lookups.
\<close>

fun balance_loop ::
  "db \<Rightarrow> TransactionEntryInput list \<Rightarrow> (string \<times> number) list
     \<Rightarrow> (error + (string \<times> number) list) \<times> access list" where
  "balance_loop d [] balanceMap = (Inr balanceMap, [])"
| "balance_loop d (entry # rest) balanceMap =
     (case getAccount d (ei_account_id entry) of
        None \<Rightarrow>
          (Inl (AccountNotFound (ei_account_id entry)), [GetAccount (ei_account_id entry)])
      | Some account \<Rightarrow>
          (let currentBalance =
                 (case map_of balanceMap (ei_account_id entry) of
                    Some b \<Rightarrow> b
                  | None \<Rightarrow> a_balance account);
               sameSide = (ei_direction entry = a_direction account);
               newBalance =
                 (if sameSide then fadd currentBalance (ei_amount entry)
                  else fsub currentBalance (ei_amount entry));
               (res, calls) =
                 balance_loop d rest (AList.update (ei_account_id entry) newBalance balanceMap)
           in (res, GetAccount (ei_account_id entry) # calls)))"

definition calculateBalanceUpdates ::
  "db \<Rightarrow> TransactionEntryInput list \<Rightarrow> (error + (string \<times> number) list) \<times> access list" where
  "calculateBalanceUpdates d entries = balance_loop d entries []"

section \<open>Transaction models\<close>

text \<open>
  \<^verbatim>\<open>randomUUID()\<close> is the \<open>k\<close>-th value of a supply \<open>rnd\<close>; \<^verbatim>\<open>x || randomUUID()\<close> takes
  \<open>x\<close> unless it is \<^verbatim>\<open>undefined\<close> or the empty string, and only then draws a value.
\<close>

definition or_randomUUID :: "(nat \<Rightarrow> string) \<Rightarrow> nat \<Rightarrow> string option \<Rightarrow> string \<times> nat" where
  "or_randomUUID rnd k x =
     (case x of
        None \<Rightarrow> (rnd k, Suc k)
      | Some s \<Rightarrow> if s = [] then (rnd k, Suc k) else (s, k))"

definition TransactionEntryModel_fromInput ::
  "(nat \<Rightarrow> string) \<Rightarrow> nat \<Rightarrow> TransactionEntryInput \<Rightarrow> string \<Rightarrow> TransactionEntryModel \<times> nat" where
  "TransactionEntryModel_fromInput rnd k input transactionId =
     (case or_randomUUID rnd k (ei_id input) of
        (i, k') \<Rightarrow>
          (\<lparr>e_id = i, e_transactionId = transactionId, e_accountId = ei_account_id input,
            e_amount = ei_amount input, e_direction = ei_direction input\<rparr>, k'))"

text \<open>\<^verbatim>\<open>input.entries.map(...)\<close>, threading the supply from left to right.\<close>

fun map_fromInput ::
  "(nat \<Rightarrow> string) \<Rightarrow> nat \<Rightarrow> TransactionEntryInput list \<Rightarrow> string \<Rightarrow> TransactionEntryModel list" where
  "map_fromInput rnd k [] transactionId = []"
| "map_fromInput rnd k (e # es) transactionId =
     (case TransactionEntryModel_fromInput rnd k e transactionId of
        (m, k') \<Rightarrow> m # map_fromInput rnd k' es transactionId)"

definition TransactionModel_fromInput ::
  "(nat \<Rightarrow> string) \<Rightarrow> nat \<Rightarrow> CreateTransactionInput \<Rightarrow> TransactionModel" where
  "TransactionModel_fromInput rnd now input =
     (case or_randomUUID rnd 0 (ti_id input) of
        (i, k) \<Rightarrow>
          \<lparr>t_id = i,
           t_name = (case ti_name input of None \<Rightarrow> [] | Some n \<Rightarrow> n),
           t_date = now,
           t_entries = map_fromInput rnd k (ti_entries input) i\<rparr>)"

section \<open>Transactions repository\<close>

text \<open>
  The statements of \<^verbatim>\<open>createWithBalanceUpdates\<close>. An \<^verbatim>\<open>INSERT\<close> fails on a primary key
  that is already in its table and on a foreign key that has no row to refer to.
\<close>

definition insert_transaction :: "TransactionRow list \<Rightarrow> TransactionRow \<Rightarrow> TransactionRow list option" where
  "insert_transaction rows r =
     (if row_id r \<in> set (map row_id rows) then None else Some (rows @ [r]))"

definition insert_entry ::
  "AccountModel list \<Rightarrow> TransactionRow list \<Rightarrow> TransactionEntryModel list \<Rightarrow> TransactionEntryModel
     \<Rightarrow> TransactionEntryModel list option" where
  "insert_entry accs txs rows r =
     (if e_id r \<in> set (map e_id rows) then None
      else if e_transactionId r \<notin> set (map row_id txs) then None
      else if e_accountId r \<notin> set (map a_id accs) then None
      else Some (rows @ [r]))"

fun insert_entries ::
  "AccountModel list \<Rightarrow> TransactionRow list \<Rightarrow> TransactionEntryModel list \<Rightarrow> string
     \<Rightarrow> TransactionEntryModel list \<Rightarrow> TransactionEntryModel list option" where
  "insert_entries accs txs rows tid [] = Some rows"
| "insert_entries accs txs rows tid (entry # rest) =
     (case insert_entry accs txs rows (entry\<lparr>e_transactionId := tid\<rparr>) of
        None \<Rightarrow> None
      | Some rows' \<Rightarrow> insert_entries accs txs rows' tid rest)"

text \<open>
  \<^verbatim>\<open>db.transaction(...)\<close>: a statement that fails rolls every earlier one back and the
  error is thrown, so the database is returned only on success.
\<close>

definition createWithBalanceUpdates ::
  "db \<Rightarrow> TransactionModel \<Rightarrow> (string \<times> number) list \<Rightarrow> error + (TransactionModel \<times> db)" where
  "createWithBalanceUpdates d transaction balanceUpdates =
     (case insert_transaction (transactions d)
             \<lparr>row_id = t_id transaction, row_name = t_name transaction,
              row_date = t_date transaction\<rparr> of
        None \<Rightarrow> Inl StorageFailure
      | Some txs \<Rightarrow>
          (case insert_entries (accounts d) txs (transaction_entries d) (t_id transaction)
                  (t_entries transaction) of
             None \<Rightarrow> Inl StorageFailure
           | Some ents \<Rightarrow>
               Inr (transaction,
                    \<lparr>accounts = updateBalances balanceUpdates (accounts d),
                     transactions = txs,
                     transaction_entries = ents\<rparr>)))"

section \<open>Posting a transaction\<close>

definition format_entry :: "TransactionEntryModel \<Rightarrow> TransactionEntryResponse" where
  "format_entry e =
     \<lparr>r_id = e_id e, r_account_id = e_accountId e, r_amount = e_amount e,
      r_direction = e_direction e\<rparr>"

text \<open>
  \<^verbatim>\<open>createTransaction\<close> returns its response or the error thrown, the database after the
  call, and the calls made on the accounts service and the transactions repository.
\<close>

definition createTransaction ::
  "(nat \<Rightarrow> string) \<Rightarrow> nat \<Rightarrow> db \<Rightarrow> CreateTransactionInput
     \<Rightarrow> (error + TransactionResponse) \<times> db \<times> access list" where
  "createTransaction rnd now d transactionInput =
     (case validateEntriesBalance (ti_entries transactionInput) of
        Inl err \<Rightarrow> (Inl err, d, [])
      | Inr _ \<Rightarrow>
          (case calculateBalanceUpdates d (ti_entries transactionInput) of
             (Inl err, calls) \<Rightarrow> (Inl err, d, calls)
           | (Inr balanceUpdates, calls) \<Rightarrow>
               (let transaction = TransactionModel_fromInput rnd now transactionInput
                in case createWithBalanceUpdates d transaction balanceUpdates of
                     Inl err \<Rightarrow> (Inl err, d, calls @ [CreateWithBalanceUpdates])
                   | Inr (savedTransaction, d') \<Rightarrow>
                       (Inr \<lparr>tr_id = t_id savedTransaction, tr_name = t_name savedTransaction,
                             tr_entries = map format_entry (t_entries savedTransaction)\<rparr>,
                        d', calls @ [CreateWithBalanceUpdates]))))"

section \<open>The HTTP boundary\<close>

text \<open>
  What the validator reports: the code of a \<^verbatim>\<open>zod\<close> issue and the path of the value it is
  about. The input records already have the JSON types of the schema, so only the checks
  on values remain: the format of an identifier (the pattern \<open>uuid\<close> of the library, a
  parameter here), \<^verbatim>\<open>number()\<close>, which takes finite numbers only, \<^verbatim>\<open>positive()\<close> and
  \<^verbatim>\<open>min(2)\<close>. All issues are collected; their order in the list carries no meaning.
\<close>

datatype path_element = Field string | Index nat

datatype issue =
  invalid_format "path_element list"
  | invalid_type "path_element list"
  | too_small "path_element list"

definition transactionEntrySchema ::
  "(string \<Rightarrow> bool) \<Rightarrow> nat \<times> TransactionEntryInput \<Rightarrow> issue list" where
  "transactionEntrySchema uuid ie =
     (case ie of
        (i, e) \<Rightarrow>
          (case ei_id e of
             None \<Rightarrow> []
           | Some s \<Rightarrow>
               if uuid s then [] else [invalid_format [Field ''entries'', Index i, Field ''id'']])
          @ (if uuid (ei_account_id e) then []
             else [invalid_format [Field ''entries'', Index i, Field ''account_id'']])
          @ (case ei_amount e of
               Fin q \<Rightarrow>
                 if 0 < q then [] else [too_small [Field ''entries'', Index i, Field ''amount'']]
             | _ \<Rightarrow> [invalid_type [Field ''entries'', Index i, Field ''amount'']]))"

definition createTransactionSchema ::
  "(string \<Rightarrow> bool) \<Rightarrow> CreateTransactionInput \<Rightarrow> issue list" where
  "createTransactionSchema uuid input =
     (case ti_id input of
        None \<Rightarrow> []
      | Some s \<Rightarrow> if uuid s then [] else [invalid_format [Field ''id'']])
     @ concat (map (transactionEntrySchema uuid) (enumerate 0 (ti_entries input)))
     @ (if length (ti_entries input) \<ge> 2 then [] else [too_small [Field ''entries'']])"

datatype http_response =
  Created TransactionResponse
  | BadRequest_issues "issue list"
  | BadRequest_error error

text \<open>
  The \<^verbatim>\<open>POST /transactions\<close> handler of \<^verbatim>\<open>routes.ts\<close>: the validator hook answers 400 with
  the issues and the handler is not run; otherwise the service is called and what it
  throws is answered with 400.
\<close>

definition transactionsApp ::
  "(string \<Rightarrow> bool) \<Rightarrow> (nat \<Rightarrow> string) \<Rightarrow> nat \<Rightarrow> db \<Rightarrow> CreateTransactionInput
     \<Rightarrow> http_response \<times> db \<times> access list" where
  "transactionsApp uuid rnd now d data =
     (let issues = createTransactionSchema uuid data
      in if issues \<noteq> [] then (BadRequest_issues issues, d, [])
         else (case createTransaction rnd now d data of
                 (Inl err, d', calls) \<Rightarrow> (BadRequest_error err, d', calls)
               | (Inr response, d', calls) \<Rightarrow> (Created response, d', calls)))"

section \<open>The quantities of the claims\<close>

text \<open>The totals of the two sides as the code accumulates them: in entry order, each
  addition rounded.\<close>

definition debit_total :: "TransactionEntryInput list \<Rightarrow> number" where
  "debit_total es = foldl fadd (Fin 0) (map ei_amount (filter (\<lambda>e. ei_direction e = DEBIT) es))"

definition credit_total :: "TransactionEntryInput list \<Rightarrow> number" where
  "credit_total es = foldl fadd (Fin 0) (map ei_amount (filter (\<lambda>e. ei_direction e = CREDIT) es))"

text \<open>The rejection condition: the absolute difference of these totals, itself a rounded
  subtraction, is greater than the double nearest to 0.001.\<close>

definition exceeds_tolerance :: "TransactionEntryInput list \<Rightarrow> bool" where
  "exceeds_tolerance es =
     fgt (fabs (fsub (debit_total es) (credit_total es))) (number_value (1 / 1000))"

text \<open>The rational a finite number denotes, and the exact totals of the two sides: the sums
  of the amounts as rationals, without rounding.\<close>

fun value_of :: "number \<Rightarrow> rat" where
  "value_of (Fin a) = a"
| "value_of PInf = 0"
| "value_of NInf = 0"
| "value_of NaN = 0"

definition exact_total :: "Direction \<Rightarrow> TransactionEntryInput list \<Rightarrow> rat" where
  "exact_total dir es =
     sum_list (map (\<lambda>e. value_of (ei_amount e)) (filter (\<lambda>e. ei_direction e = dir) es))"

text \<open>One entry applied to a balance of an account whose own direction is \<open>dir\<close>, all
  entries of account \<open>a\<close> applied in entry order, and the exact signed sum of those entries:
  plus the amount of an entry in the account's direction, minus the amount of another.\<close>

definition apply_entry :: "Direction \<Rightarrow> number \<Rightarrow> TransactionEntryInput \<Rightarrow> number" where
  "apply_entry dir b e =
     (if ei_direction e = dir then fadd b (ei_amount e) else fsub b (ei_amount e))"

definition accumulated :: "Direction \<Rightarrow> number \<Rightarrow> string \<Rightarrow> TransactionEntryInput list \<Rightarrow> number" where
  "accumulated dir b a es = foldl (apply_entry dir) b (filter (\<lambda>e. ei_account_id e = a) es)"

definition signed_effect :: "Direction \<Rightarrow> TransactionEntryInput \<Rightarrow> rat" where
  "signed_effect dir e =
     (if ei_direction e = dir then value_of (ei_amount e) else - value_of (ei_amount e))"

definition signed_sum :: "Direction \<Rightarrow> string \<Rightarrow> TransactionEntryInput list \<Rightarrow> rat" where
  "signed_sum dir a es =
     sum_list (map (signed_effect dir) (filter (\<lambda>e. ei_account_id e = a) es))"

text \<open>No step rounds: every amount is finite and every sum or difference along the way is
  the exact one.\<close>

fun exact_steps :: "Direction \<Rightarrow> rat \<Rightarrow> TransactionEntryInput list \<Rightarrow> bool" where
  "exact_steps dir b [] = True"
| "exact_steps dir b (e # es) =
     (apply_entry dir (Fin b) e = Fin (b + signed_effect dir e)
      \<and> exact_steps dir (b + signed_effect dir e) es)"

text \<open>The distinct elements of a list in the order of their first occurrence.\<close>

fun first_encounter :: "'a list \<Rightarrow> 'a list" where
  "first_encounter [] = []"
| "first_encounter (x # xs) = x # filter (\<lambda>y. y \<noteq> x) (first_encounter xs)"

text \<open>The first entry, in input order, whose account the store does not have.\<close>

definition first_missing :: "db \<Rightarrow> TransactionEntryInput list \<Rightarrow> TransactionEntryInput option" where
  "first_missing d es = find (\<lambda>e. getAccount d (ei_account_id e) = None) es"

text \<open>The balance the loop stores for the account of entry \<open>e\<close>, given the map so far.\<close>

definition next_balance :: "AccountModel \<Rightarrow> TransactionEntryInput \<Rightarrow> (string \<times> number) list \<Rightarrow> number" where
  "next_balance acc e bm =
     apply_entry (a_direction acc)
       (case map_of bm (ei_account_id e) of Some b \<Rightarrow> b | None \<Rightarrow> a_balance acc) e"

text \<open>An identifier of the input that \<^verbatim>\<open>||\<close> replaces: absent, or the empty string; and
  the number of values the supply has given out before the entry that follows \<open>es\<close>
  in a posting whose own identifier is \<open>tid\<close>.\<close>

definition no_id :: "string option \<Rightarrow> bool" where
  "no_id x = (x = None \<or> x = Some [])"

definition draws_before :: "string option \<Rightarrow> TransactionEntryInput list \<Rightarrow> nat" where
  "draws_before tid es =
     (if no_id tid then 1 else 0) + length (filter (\<lambda>e. no_id (ei_id e)) es)"

text \<open>The row of \<^verbatim>\<open>transaction_entries\<close> that holds an entry of a response.\<close>

definition stored_entry :: "string \<Rightarrow> TransactionEntryResponse \<Rightarrow> TransactionEntryModel" where
  "stored_entry tid r =
     \<lparr>e_id = r_id r, e_transactionId = tid, e_accountId = r_account_id r,
      e_amount = r_amount r, e_direction = r_direction r\<rparr>"

section \<open>A small ledger for the scenarios\<close>

definition uuid_supply :: "nat \<Rightarrow> string" where
  "uuid_supply k = ''uuid-'' @ replicate k (CHR ''i'')"

definition cash :: AccountModel where
  "cash = \<lparr>a_id = ''A'', a_name = ''Cash'', a_balance = Fin 5000, a_direction = DEBIT\<rparr>"

definition revenue :: AccountModel where
  "revenue = \<lparr>a_id = ''B'', a_name = ''Revenue'', a_balance = Fin 0, a_direction = CREDIT\<rparr>"

text \<open>The same two accounts, the first with a balance of \<open>10 ^ 16\<close>, where doubles are two
  apart.\<close>

definition large_ledger :: db where
  "large_ledger =
     \<lparr>accounts = [cash\<lparr>a_balance := Fin (10 ^ 16)\<rparr>, revenue], transactions = [],
      transaction_entries = []\<rparr>"

definition ledger :: db where
  "ledger = \<lparr>accounts = [cash, revenue], transactions = [], transaction_entries = []\<rparr>"

definition entry :: "string \<Rightarrow> number \<Rightarrow> Direction \<Rightarrow> TransactionEntryInput" where
  "entry a x dir = \<lparr>ei_id = None, ei_account_id = a, ei_amount = x, ei_direction = dir\<rparr>"

definition posting :: "TransactionEntryInput list \<Rightarrow> CreateTransactionInput" where
  "posting es = \<lparr>ti_id = None, ti_name = None, ti_entries = es\<rparr>"

section \<open>Rounding\<close>

lemma bit_length_bounds:
  "0 < n \<Longrightarrow> 1 \<le> bit_length n \<and> 2 ^ nat (bit_length n - 1) \<le> n \<and> n < 2 ^ nat (bit_length n)"
proof (induction n rule: bit_length.induct)
  case (1 n)
  show ?case
  proof (cases "n div 2 \<le> 0")
    case True
    with "1.prems" have n: "n = 1" by linarith
    have "bit_length 1 = 1"
      by (simp add: bit_length.simps [of 1] bit_length.simps [of 0])
    with n show ?thesis by simp
  next
    case False
    then have pos: "0 < n div 2" by simp
    from "1.prems" have unf: "bit_length n = 1 + bit_length (n div 2)"
      by (simp add: bit_length.simps [of n])
    from "1.IH" "1.prems" pos
    have b: "1 \<le> bit_length (n div 2)"
      and lo: "2 ^ nat (bit_length (n div 2) - 1) \<le> n div 2"
      and hi: "n div 2 < 2 ^ nat (bit_length (n div 2))"
      by simp_all
    from b have e: "nat (bit_length (n div 2)) = Suc (nat (bit_length (n div 2) - 1))"
      by simp
    have "2 * 2 ^ nat (bit_length (n div 2) - 1) \<le> 2 * (n div 2)"
      using lo by simp
    also have "\<dots> \<le> n" by simp
    finally have lo': "2 ^ nat (bit_length (n div 2)) \<le> n"
      by (simp add: e)
    have "n < 2 * (n div 2) + 2" by linarith
    also have "\<dots> \<le> 2 * 2 ^ nat (bit_length (n div 2))"
      using hi by simp
    finally have hi': "n < 2 ^ Suc (nat (bit_length (n div 2)))"
      by simp
    from b have "nat (1 + bit_length (n div 2)) = Suc (nat (bit_length (n div 2)))"
      by simp
    with unf b lo' hi' show ?thesis by simp
  qed
qed

lemma scaled_ratio:
  assumes "0 < d" and "scaled n d s = (N, D)"
  shows "0 < D \<and> (of_int N / of_int D :: rat) = of_int n / of_int d / 2 powi s"
proof (cases "0 \<le> s")
  case True
  with assms show ?thesis
    by (auto simp: scaled_def power_int_def)
next
  case False
  with assms show ?thesis
    by (auto simp: scaled_def power_int_def field_simps)
qed

lemma pow2_pos: "0 < (2 :: rat) powi k"
  by (simp add: power_int_def)

lemma pow2_exponent_unique:
  assumes "(2 :: rat) powi x \<le> r" and "r < 2 powi (y + 1)"
  shows "x \<le> y"
proof (rule ccontr)
  assume "\<not> x \<le> y"
  then have "y + 1 \<le> x" by simp
  then have "(2 :: rat) powi (y + 1) \<le> 2 powi x"
    by (rule power_int_increasing) simp
  with assms show False by simp
qed

lemma floor_log2_bounds:
  assumes "0 < n" and "0 < d"
  shows "(2 :: rat) powi (floor_log2 n d) \<le> of_int n / of_int d
         \<and> of_int n / of_int d < (2 :: rat) powi (floor_log2 n d + 1)"
proof -
  define k where "k = bit_length n - bit_length d"
  obtain N D where sc: "scaled n d k = (N, D)" by (cases "scaled n d k")
  from scaled_ratio [OF assms(2) sc]
  have D: "0 < D" and ratio: "(of_int N / of_int D :: rat) = of_int n / of_int d / 2 powi k"
    by simp_all
  have fl: "floor_log2 n d = (if D \<le> N then k else k - 1)"
    by (simp add: floor_log2_def k_def [symmetric] sc)
  from bit_length_bounds [OF assms(1)]
  have bn: "1 \<le> bit_length n" and nlo: "2 ^ nat (bit_length n - 1) \<le> n"
    and nhi: "n < 2 ^ nat (bit_length n)" by simp_all
  from bit_length_bounds [OF assms(2)]
  have bd: "1 \<le> bit_length d" and dlo: "2 ^ nat (bit_length d - 1) \<le> d"
    and dhi: "d < 2 ^ nat (bit_length d)" by simp_all
  let ?q = "of_int n / of_int d :: rat"
  have dpos: "(0 :: rat) < of_int d" using assms(2) by simp
  have nlo': "(2 :: rat) powi (bit_length n - 1) \<le> of_int n"
  proof -
    have "(of_int (2 ^ nat (bit_length n - 1)) :: rat) \<le> of_int n"
      using nlo by (simp only: of_int_le_iff)
    with bn show ?thesis by (simp add: power_int_def)
  qed
  have nhi': "(of_int n :: rat) < 2 powi (bit_length n)"
  proof -
    have "(of_int n :: rat) < of_int (2 ^ nat (bit_length n))"
      using nhi by (simp only: of_int_less_iff)
    with bn show ?thesis by (simp add: power_int_def)
  qed
  have dlo': "(2 :: rat) powi (bit_length d - 1) \<le> of_int d"
  proof -
    have "(of_int (2 ^ nat (bit_length d - 1)) :: rat) \<le> of_int d"
      using dlo by (simp only: of_int_le_iff)
    with bd show ?thesis by (simp add: power_int_def)
  qed
  have dhi': "(of_int d :: rat) < 2 powi (bit_length d)"
  proof -
    have "(of_int d :: rat) < of_int (2 ^ nat (bit_length d))"
      using dhi by (simp only: of_int_less_iff)
    with bd show ?thesis by (simp add: power_int_def)
  qed
  have upper: "?q < 2 powi (k + 1)"
  proof -
    have "of_int n < (2 :: rat) powi (bit_length n)" by (rule nhi')
    also have "\<dots> = 2 powi (k + 1) * 2 powi (bit_length d - 1)"
      by (simp add: k_def flip: power_int_add)
    also have "\<dots> \<le> 2 powi (k + 1) * of_int d"
      using dlo' by (intro mult_left_mono) (simp_all add: less_imp_le [OF pow2_pos])
    finally show ?thesis using dpos by (simp add: pos_divide_less_eq)
  qed
  have lower: "2 powi (k - 1) \<le> ?q"
  proof -
    have "(2 :: rat) powi (k - 1) * of_int d \<le> 2 powi (k - 1) * 2 powi (bit_length d)"
      using dhi' by (intro mult_left_mono) (simp_all add: less_imp_le [OF pow2_pos])
    also have "\<dots> = 2 powi (bit_length n - 1)"
      by (simp add: k_def flip: power_int_add)
    also have "\<dots> \<le> of_int n" by (rule nlo')
    finally show ?thesis using dpos by (simp add: pos_le_divide_eq)
  qed
  have test: "D \<le> N \<longleftrightarrow> 2 powi k \<le> ?q"
  proof -
    have "D \<le> N \<longleftrightarrow> (1 :: rat) \<le> of_int N / of_int D"
      using D by (simp add: pos_le_divide_eq)
    also have "\<dots> \<longleftrightarrow> 1 \<le> ?q / 2 powi k"
      by (simp only: ratio)
    also have "\<dots> \<longleftrightarrow> 1 * 2 powi k \<le> ?q"
      by (rule pos_le_divide_eq [OF pow2_pos])
    finally show ?thesis by simp
  qed
  show ?thesis
  proof (cases "D \<le> N")
    case True
    with fl test upper show ?thesis by simp
  next
    case False
    with fl test lower show ?thesis by simp
  qed
qed

lemma round_half_even_exact: "0 < D \<Longrightarrow> round_half_even (m * D) D = m"
  by (simp add: round_half_even_def)

lemma div_mult_le_self: "0 < D \<Longrightarrow> (N div D) * D \<le> (N :: int)"
proof -
  assume "0 < D"
  then have "0 \<le> N mod D" by simp
  moreover have "N = (N div D) * D + N mod D" by simp
  ultimately show ?thesis by linarith
qed

lemma less_div_mult_succ: "0 < D \<Longrightarrow> (N :: int) < (N div D + 1) * D"
proof -
  assume "0 < D"
  then have "N mod D < D" by simp
  moreover have "N = (N div D) * D + N mod D" by simp
  moreover have "(N div D + 1) * D = (N div D) * D + D" by (simp add: algebra_simps)
  ultimately show ?thesis by linarith
qed

lemma round_half_even_upper:
  assumes "0 < D" and "N < K * D"
  shows "round_half_even N D \<le> K"
proof -
  have "N div D < K"
  proof (rule ccontr)
    assume "\<not> N div D < K"
    then have "K \<le> N div D" by simp
    then have "K * D \<le> (N div D) * D"
      using assms(1) by (intro mult_right_mono) simp_all
    with div_mult_le_self [OF assms(1), of N] assms(2) show False by linarith
  qed
  then show ?thesis by (simp add: round_half_even_def Let_def)
qed

lemma round_half_even_lower:
  assumes "0 < D" and "K * D \<le> N"
  shows "K \<le> round_half_even N D"
proof -
  have "K \<le> N div D"
  proof (rule ccontr)
    assume "\<not> K \<le> N div D"
    then have "N div D + 1 \<le> K" by simp
    then have "(N div D + 1) * D \<le> K * D"
      using assms(1) by (intro mult_right_mono) simp_all
    with less_div_mult_succ [OF assms(1), of N] assms(2) show False by linarith
  qed
  then show ?thesis by (simp add: round_half_even_def Let_def)
qed

lemma dyadic_eq: "dyadic m s = of_int m * 2 powi s"
  by (simp add: dyadic_def power_int_def field_simps)

lemma quotient_of_pos:
  assumes "0 < r" and "quotient_of r = (n, d)"
  shows "0 < n \<and> 0 < d \<and> r = of_int n / of_int d"
proof -
  from quotient_of_denom_pos [OF assms(2)] have d: "0 < d" .
  from quotient_of_div [OF assms(2)] have r: "r = of_int n / of_int d" .
  with assms(1) d have "0 < n" by (simp add: zero_less_divide_iff)
  with d r show ?thesis by simp
qed

lemma significand_dyadic:
  assumes m: "0 < m" "m \<le> 2 ^ 53" and s: "- 1074 \<le> s" and normal: "- 1074 < s \<longrightarrow> 2 ^ 52 \<le> m"
  shows "significand (of_int m * 2 powi s)
           = (if m = 2 ^ 53 then (2 ^ 52, s + 1) else (m, s))"
proof -
  let ?r = "of_int m * 2 powi s :: rat"
  have rpos: "0 < ?r" using m(1) by (simp add: pow2_pos)
  obtain n d where q: "quotient_of ?r = (n, d)" by (cases "quotient_of ?r")
  from quotient_of_pos [OF rpos q]
  have n: "0 < n" and d: "0 < d" and r: "?r = of_int n / of_int d" by simp_all
  define e0 where "e0 = floor_log2 n d"
  from floor_log2_bounds [OF n d]
  have lo: "2 powi e0 \<le> ?r" and hi: "?r < 2 powi (e0 + 1)"
    by (simp_all add: e0_def r)
  have sig: "significand ?r = (case scaled n d (max e0 (- 1022) - 52) of
                (N, D) \<Rightarrow> round_half_even N D, max e0 (- 1022) - 52)"
    by (simp add: significand_def q e0_def Let_def)
  show ?thesis
  proof (cases "m = 2 ^ 53")
    case True
    then have rv: "?r = 2 powi (s + 53)"
      by (simp add: power_int_add)
    have "?r < 2 powi (s + 53 + 1)"
      unfolding rv by (rule power_int_strict_increasing) simp_all
    from pow2_exponent_unique [OF lo this] have le: "e0 \<le> s + 53" .
    have "2 powi (s + 53) \<le> ?r" by (simp only: rv)
    from pow2_exponent_unique [OF this hi] le have "e0 = s + 53" by simp
    with s have e: "max e0 (- 1022) - 52 = s + 1" by simp
    obtain N D where sc: "scaled n d (s + 1) = (N, D)" by (cases "scaled n d (s + 1)")
    from scaled_ratio [OF d sc] have D: "0 < D"
      and ratio: "(of_int N / of_int D :: rat) = ?r / 2 powi (s + 1)"
      by (simp_all add: r)
    have "?r / 2 powi (s + 1) = (2 :: rat) powi 52"
      by (simp add: rv flip: power_int_diff)
    with ratio D have "(of_int N :: rat) = of_int (2 ^ 52 * D)"
      by (simp add: field_simps)
    then have "N = 2 ^ 52 * D" by (simp only: of_int_eq_iff)
    with D have "round_half_even N D = 2 ^ 52"
      by (simp add: round_half_even_exact)
    with sig e sc True show ?thesis by simp
  next
    case False
    with m(2) have lt: "m < 2 ^ 53" by simp
    have "?r < 2 ^ 53 * 2 powi s"
      using lt by (intro mult_strict_right_mono) (simp_all add: pow2_pos)
    also have "\<dots> = 2 powi (s + 52 + 1)"
      by (simp add: power_int_add)
    finally have up: "?r < 2 powi (s + 52 + 1)" .
    from pow2_exponent_unique [OF lo up] have le: "e0 \<le> s + 52" .
    have e: "max e0 (- 1022) - 52 = s"
    proof (cases "- 1074 < s")
      case True
      with normal have "(2 :: rat) ^ 52 \<le> of_int m"
        by (metis of_int_le_iff of_int_numeral of_int_power)
      then have "2 ^ 52 * 2 powi s \<le> ?r"
        by (intro mult_right_mono) (simp_all add: less_imp_le [OF pow2_pos])
      then have "2 powi (s + 52) \<le> ?r"
        by (simp add: power_int_add mult.commute)
      from pow2_exponent_unique [OF this hi] le True show ?thesis by simp
    next
      case False
      with s le show ?thesis by simp
    qed
    obtain N D where sc: "scaled n d s = (N, D)" by (cases "scaled n d s")
    from scaled_ratio [OF d sc] have D: "0 < D"
      and ratio: "(of_int N / of_int D :: rat) = ?r / 2 powi s"
      by (simp_all add: r)
    from ratio D have "(of_int N :: rat) = of_int (m * D)"
      by (simp add: field_simps)
    then have "N = m * D" by (simp only: of_int_eq_iff)
    with D have "round_half_even N D = m"
      by (simp add: round_half_even_exact)
    with sig e sc False show ?thesis by simp
  qed
qed

lemma significand_bounds:
  assumes "0 < a" and "significand a = (m, s)"
  shows "- 1074 \<le> s \<and> 0 \<le> m \<and> m \<le> 2 ^ 53 \<and> (- 1074 < s \<longrightarrow> 2 ^ 52 \<le> m)"
proof -
  obtain n d where q: "quotient_of a = (n, d)" by (cases "quotient_of a")
  from quotient_of_pos [OF assms(1) q]
  have n: "0 < n" and d: "0 < d" and a: "a = of_int n / of_int d" by simp_all
  define e0 where "e0 = floor_log2 n d"
  from floor_log2_bounds [OF n d]
  have lo: "2 powi e0 \<le> a" and hi: "a < 2 powi (e0 + 1)"
    by (simp_all add: e0_def a)
  obtain N D where sc: "scaled n d s = (N, D)" by (cases "scaled n d s")
  from assms(2) have s: "s = max e0 (- 1022) - 52"
    by (auto simp: significand_def q e0_def Let_def split: prod.splits)
  from assms(2) sc have mv: "m = round_half_even N D"
    by (auto simp: significand_def q e0_def Let_def s split: prod.splits)
  from scaled_ratio [OF d sc] have D: "0 < D"
    and ratio: "(of_int N / of_int D :: rat) = a / 2 powi s"
    by (simp_all add: a)
  have Nnn: "0 \<le> N"
  proof -
    have "(0 :: rat) \<le> of_int N / of_int D"
      using assms(1) by (simp add: ratio less_imp_le [OF pow2_pos])
    with D show ?thesis by (simp add: zero_le_divide_iff)
  qed
  have "a < 2 powi (s + 53)"
  proof -
    have "(2 :: rat) powi (e0 + 1) \<le> 2 powi (s + 53)"
      by (rule power_int_increasing) (simp_all add: s)
    with hi show ?thesis by simp
  qed
  then have "a / 2 powi s < 2 powi (s + 53) / 2 powi s"
    by (simp add: divide_strict_right_mono pow2_pos)
  also have "\<dots> = 2 ^ 53"
    by (simp flip: power_int_diff)
  finally have "(of_int N :: rat) < of_int (2 ^ 53 * D)"
    using D by (simp add: ratio [symmetric] pos_divide_less_eq)
  then have "N < 2 ^ 53 * D" by (simp only: of_int_less_iff)
  from round_half_even_upper [OF D this] have up: "m \<le> 2 ^ 53" by (simp add: mv)
  from round_half_even_lower [OF D, of 0 N] Nnn have nn: "0 \<le> m" by (simp add: mv)
  have low: "2 ^ 52 \<le> m" if "- 1074 < s"
  proof -
    from that have "e0 = s + 52" by (simp add: s)
    with lo have "2 powi (s + 52) / 2 powi s \<le> a / 2 powi s"
      by (simp add: divide_right_mono less_imp_le [OF pow2_pos])
    moreover have "(2 :: rat) powi (s + 52) / 2 powi s = 2 ^ 52"
      by (simp flip: power_int_diff)
    ultimately have "(of_int (2 ^ 52 * D) :: rat) \<le> of_int N"
      using D by (simp add: ratio [symmetric] pos_le_divide_eq)
    then have "2 ^ 52 * D \<le> N" by (simp only: of_int_le_iff)
    from round_half_even_lower [OF D this] show ?thesis by (simp add: mv)
  qed
  from s nn up low show ?thesis by simp
qed

lemma number_value_nonzero:
  "q \<noteq> 0 \<Longrightarrow> significand (abs q) = (m, s) \<Longrightarrow>
     number_value q =
       (if 971 < s \<or> (s = 971 \<and> 2 ^ 53 \<le> m) then (if 0 < q then PInf else NInf)
        else Fin (if 0 < q then dyadic m s else - dyadic m s))"
  by (simp add: number_value_def)

lemma number_value_idem:
  assumes "number_value q = Fin a"
  shows "number_value a = Fin a"
proof (cases "q = 0")
  case True
  with assms show ?thesis by (simp add: number_value_def)
next
  case False
  obtain m s where sg: "significand (abs q) = (m, s)" by (cases "significand (abs q)")
  from False have apos: "0 < abs q" by simp
  from significand_bounds [OF apos sg]
  have s: "- 1074 \<le> s" and m: "0 \<le> m" "m \<le> 2 ^ 53" and normal: "- 1074 < s \<longrightarrow> 2 ^ 52 \<le> m"
    by simp_all
  from assms number_value_nonzero [OF False sg]
  have fin: "\<not> (971 < s \<or> (s = 971 \<and> 2 ^ 53 \<le> m))"
    and a: "a = (if 0 < q then dyadic m s else - dyadic m s)"
    by (auto split: if_splits)
  show ?thesis
  proof (cases "m = 0")
    case True
    with a show ?thesis by (simp add: dyadic_eq number_value_def)
  next
    case False
    with m have mpos: "0 < m" by simp
    have dpos: "0 < dyadic m s"
      using mpos by (simp add: dyadic_eq pow2_pos)
    have abs_a: "abs a = of_int m * 2 powi s" and a0: "a \<noteq> 0" and sgn: "0 < a \<longleftrightarrow> 0 < q"
      using dpos a by (auto simp: dyadic_eq)
    note sd = significand_dyadic [OF mpos m(2) s normal, folded abs_a]
    show ?thesis
    proof (cases "m = 2 ^ 53")
      case True
      with fin have lt: "s < 971" by auto
      have same: "dyadic (2 ^ 52) (s + 1) = dyadic m s"
        by (simp add: dyadic_eq True power_int_add)
      from sd True have sg': "significand (abs a) = (2 ^ 52, s + 1)" by simp
      from lt have ok: "\<not> (971 < s + 1 \<or> (s + 1 = 971 \<and> (2 :: int) ^ 53 \<le> 2 ^ 52))" by simp
      show ?thesis
        unfolding number_value_nonzero [OF a0 sg'] using lt dpos same
        by (simp add: a)
    next
      case False
      with sd have sg': "significand (abs a) = (m, s)" by simp
      show ?thesis
        unfolding number_value_nonzero [OF a0 sg'] using fin dpos
        by (simp add: a)
    qed
  qed
qed

lemma number_value_minus: "number_value (- q) = fneg (number_value q)"
  by (simp add: number_value_def split: prod.splits)

lemma round_half_even_error:
  assumes "0 < D"
  shows "abs (2 * (round_half_even N D * D - N)) \<le> D"
proof -
  define f r where "f = N div D" and "r = N mod D"
  have N: "N = f * D + r" by (simp add: f_def r_def)
  from assms have r: "0 \<le> r" "r < D" by (simp_all add: r_def)
  have m: "round_half_even N D =
      (if 2 * r < D then f else if D < 2 * r then f + 1 else if even f then f else f + 1)"
    by (simp add: round_half_even_def f_def r_def)
  have up: "(f + 1) * D - N = D - r" by (simp add: N algebra_simps)
  have dn: "f * D - N = - r" by (simp add: N)
  consider "2 * r < D" | "D < 2 * r" | "D = 2 * r" by linarith
  then show ?thesis
  proof cases
    case 1
    then have "round_half_even N D * D - N = - r" by (simp add: m dn)
    with 1 r show ?thesis by simp
  next
    case 2
    then have "round_half_even N D * D - N = D - r" by (simp add: m up)
    with 2 r show ?thesis by simp
  next
    case 3
    have "round_half_even N D = f \<or> round_half_even N D = f + 1"
      unfolding m by simp
    then have "round_half_even N D * D - N = - r \<or> round_half_even N D * D - N = D - r"
      using up dn by auto
    with 3 r show ?thesis by auto
  qed
qed

text \<open>Rounding is to a nearest double: the significand times its unit is within half a
  unit of the rational.\<close>

lemma significand_nearest:
  assumes "0 < a" and "significand a = (m, s)"
  shows "abs (of_int m * 2 powi s - a) \<le> 2 powi s / 2"
proof -
  obtain n d where q: "quotient_of a = (n, d)" by (cases "quotient_of a")
  from quotient_of_pos [OF assms(1) q]
  have d: "0 < d" and a: "a = of_int n / of_int d" by simp_all
  obtain N D where sc: "scaled n d s = (N, D)" by (cases "scaled n d s")
  from assms(2) have s: "s = max (floor_log2 n d) (- 1022) - 52"
    by (auto simp: significand_def q Let_def split: prod.splits)
  from assms(2) sc have mv: "m = round_half_even N D"
    by (auto simp: significand_def q Let_def s split: prod.splits)
  from scaled_ratio [OF d sc] have D: "0 < D"
    and ratio: "(of_int N / of_int D :: rat) = a / 2 powi s"
    by (simp_all add: a)
  from ratio have av: "a = of_int N / of_int D * 2 powi s"
    using pow2_pos [of s] by (simp add: field_simps)
  from round_half_even_error [OF D, of N]
  have "(of_int (abs (2 * (m * D - N))) :: rat) \<le> of_int D"
    by (simp only: of_int_le_iff mv)
  then have "abs (2 * (of_int m * of_int D - of_int N) :: rat) \<le> of_int D"
    by simp
  then have "abs (of_int m - of_int N / of_int D :: rat) \<le> 1 / 2"
    using D by (simp add: field_simps abs_if split: if_splits)
  then have "abs (of_int m - of_int N / of_int D :: rat) * 2 powi s \<le> 1 / 2 * 2 powi s"
    by (intro mult_right_mono) (simp_all add: less_imp_le [OF pow2_pos])
  moreover have "of_int m * 2 powi s - a = (of_int m - of_int N / of_int D) * 2 powi s"
    by (simp add: av algebra_simps)
  then have "abs (of_int m * 2 powi s - a)
      = abs (of_int m - of_int N / of_int D :: rat) * 2 powi s"
    by (simp only: abs_mult abs_of_pos [OF pow2_pos])
  ultimately show ?thesis by simp
qed

text \<open>Some values of the arithmetic: 0.1 + 0.2 is 0.30000000000000004; at \<open>10 ^ 16\<close>
  doubles are two apart and a tie goes to the even significand; \<open>2 ^ 53 + 1\<close> is not a
  double.\<close>

lemma binary64_values:
  "fadd (number_value (1 / 10)) (number_value (2 / 10)) = Fin (1351079888211149 / 2 ^ 52)"
  "number_value (3 / 10) = Fin (5404319552844595 / 2 ^ 54)"
  "fadd (Fin (10 ^ 16)) (Fin 1) = Fin (10 ^ 16)"
  "fadd (Fin (10 ^ 16)) (Fin 3) = Fin (10 ^ 16 + 4)"
  "number_value (2 ^ 53 + 1) = Fin (2 ^ 53)"
  by code_simp+

section \<open>Properties of the validator and the calculator\<close>

lemma sum_sides_totals:
  "sum_sides es (dt, ct) =
     (foldl fadd dt (map ei_amount (filter (\<lambda>e. ei_direction e = DEBIT) es)),
      foldl fadd ct (map ei_amount (filter (\<lambda>e. ei_direction e = CREDIT) es)))"
proof (induction es arbitrary: dt ct)
  case Nil
  show ?case by simp
next
  case (Cons e es)
  show ?case
  proof (cases "ei_direction e")
    case DEBIT
    then show ?thesis using Cons [of "fadd dt (ei_amount e)" ct] by simp
  next
    case CREDIT
    then show ?thesis using Cons [of dt "fadd ct (ei_amount e)"] by simp
  qed
qed

lemma validateEntriesBalance_totals:
  "validateEntriesBalance es =
     (if exceeds_tolerance es
      then Inl (Unbalanced (debit_total es) (credit_total es)) else Inr ())"
  by (simp add: validateEntriesBalance_def sum_sides_totals exceeds_tolerance_def
        debit_total_def credit_total_def)

lemma set_first_encounter: "set (first_encounter xs) = set xs"
  by (induction xs) auto

lemma distinct_first_encounter: "distinct (first_encounter xs)"
  by (induction xs) (auto simp: set_first_encounter)

lemma filter_first_encounter: "filter P (first_encounter xs) = first_encounter (filter P xs)"
proof (induction xs)
  case Nil
  show ?case by simp
next
  case (Cons x xs)
  show ?case
  proof (cases "P x")
    case True
    have "filter P (filter (\<lambda>y. y \<noteq> x) (first_encounter xs))
            = filter (\<lambda>y. y \<noteq> x) (filter P (first_encounter xs))"
      by (simp add: conj_commute)
    with True Cons show ?thesis by simp
  next
    case False
    then have "x \<notin> set (first_encounter (filter P xs))"
      by (simp add: set_first_encounter)
    then have "filter (\<lambda>y. y \<noteq> x) (first_encounter (filter P xs)) = first_encounter (filter P xs)"
      by (auto simp: filter_id_conv)
    moreover have "filter P (filter (\<lambda>y. y \<noteq> x) (first_encounter xs))
            = filter (\<lambda>y. y \<noteq> x) (filter P (first_encounter xs))"
      by (simp add: conj_commute)
    ultimately show ?thesis using False Cons by simp
  qed
qed

lemma balance_loop_None:
  "getAccount d (ei_account_id e) = None \<Longrightarrow>
     balance_loop d (e # es) bm =
       (Inl (AccountNotFound (ei_account_id e)), [GetAccount (ei_account_id e)])"
  by simp

lemma balance_loop_Some:
  "getAccount d (ei_account_id e) = Some acc \<Longrightarrow>
     balance_loop d (e # es) bm =
       (fst (balance_loop d es (AList.update (ei_account_id e) (next_balance acc e bm) bm)),
        GetAccount (ei_account_id e)
          # snd (balance_loop d es (AList.update (ei_account_id e) (next_balance acc e bm) bm)))"
  by (simp add: Let_def next_balance_def apply_entry_def split: prod.splits)

lemma balance_loop_error:
  "fst (balance_loop d es bm) = Inl err \<Longrightarrow>
     \<exists>e. first_missing d es = Some e \<and> err = AccountNotFound (ei_account_id e)"
proof (induction es arbitrary: bm)
  case Nil
  then show ?case by simp
next
  case (Cons e es)
  show ?case
  proof (cases "getAccount d (ei_account_id e)")
    case None
    with Cons.prems show ?thesis by (simp add: first_missing_def)
  next
    case (Some acc)
    from Cons.prems have "fst (balance_loop d es
        (AList.update (ei_account_id e) (next_balance acc e bm) bm)) = Inl err"
      by (simp only: balance_loop_Some [OF Some] fst_conv)
    from Cons.IH [OF this] Some show ?thesis by (simp add: first_missing_def)
  qed
qed

lemma balance_loop_missing:
  "first_missing d es = Some e \<Longrightarrow>
     fst (balance_loop d es bm) = Inl (AccountNotFound (ei_account_id e))"
proof (induction es arbitrary: bm)
  case Nil
  then show ?case by (simp add: first_missing_def)
next
  case (Cons x es)
  show ?case
  proof (cases "getAccount d (ei_account_id x)")
    case None
    with Cons.prems show ?thesis by (simp add: first_missing_def)
  next
    case (Some acc)
    with Cons.prems have "first_missing d es = Some e" by (simp add: first_missing_def)
    from Cons.IH [OF this] show ?thesis
      by (simp only: balance_loop_Some [OF Some] fst_conv)
  qed
qed

lemma balance_loop_no_commit: "CreateWithBalanceUpdates \<notin> set (snd (balance_loop d es bm))"
proof (induction es arbitrary: bm)
  case Nil
  show ?case by simp
next
  case (Cons e es)
  show ?case
  proof (cases "getAccount d (ei_account_id e)")
    case None
    then show ?thesis by simp
  next
    case (Some acc)
    show ?thesis using Cons by (simp only: balance_loop_Some [OF Some]) simp
  qed
qed

lemma balance_loop_keys:
  "fst (balance_loop d es bm) = Inr ups \<Longrightarrow>
     map fst ups = map fst bm
       @ first_encounter (filter (\<lambda>a. a \<notin> set (map fst bm)) (map ei_account_id es))"
proof (induction es arbitrary: bm)
  case Nil
  then show ?case by simp
next
  case (Cons e es)
  let ?a = "ei_account_id e"
  from Cons.prems obtain acc where acc: "getAccount d ?a = Some acc"
    by (cases "getAccount d ?a") auto
  define v where "v = next_balance acc e bm"
  from Cons.prems have rec: "fst (balance_loop d es (AList.update ?a v bm)) = Inr ups"
    unfolding v_def by (simp only: balance_loop_Some [OF acc] fst_conv)
  note IH = Cons.IH [OF rec]
  show ?case
  proof (cases "?a \<in> set (map fst bm)")
    case True
    then have "map fst (AList.update ?a v bm) = map fst bm"
      by (simp add: update_keys)
    with IH True show ?thesis by simp
  next
    case False
    then have keys: "map fst (AList.update ?a v bm) = map fst bm @ [?a]"
      by (simp add: update_keys)
    have "filter (\<lambda>a. a \<notin> set (map fst bm @ [?a])) (map ei_account_id es)
            = filter (\<lambda>y. y \<noteq> ?a) (filter (\<lambda>a. a \<notin> set (map fst bm)) (map ei_account_id es))"
      by (auto intro: filter_cong)
    with IH keys False show ?thesis
      by (simp add: filter_first_encounter del: set_map)
  qed
qed

lemma accumulated_Cons:
  "accumulated dir b a (e # es) =
     (if ei_account_id e = a then accumulated dir (apply_entry dir b e) a es
      else accumulated dir b a es)"
  by (simp add: accumulated_def)

lemma balance_loop_value:
  "fst (balance_loop d es bm) = Inr ups \<Longrightarrow> getAccount d a = Some acc \<Longrightarrow>
     map_of ups a =
       (if a \<in> set (map ei_account_id es) \<or> map_of bm a \<noteq> None
        then Some (accumulated (a_direction acc)
                     (case map_of bm a of Some b \<Rightarrow> b | None \<Rightarrow> a_balance acc) a es)
        else None)"
proof (induction es arbitrary: bm)
  case Nil
  then show ?case by (auto simp: accumulated_def)
next
  case (Cons e es)
  let ?b = "ei_account_id e"
  from Cons.prems(1) obtain acc' where acc': "getAccount d ?b = Some acc'"
    by (cases "getAccount d ?b") auto
  define v where "v = next_balance acc' e bm"
  from Cons.prems(1) have rec: "fst (balance_loop d es (AList.update ?b v bm)) = Inr ups"
    unfolding v_def by (simp only: balance_loop_Some [OF acc'] fst_conv)
  note IH = Cons.IH [OF rec Cons.prems(2)]
  show ?case
  proof (cases "?b = a")
    case True
    with acc' Cons.prems(2) have same: "acc' = acc" by simp
    have "map_of (AList.update ?b v bm) a = Some v"
      using True by (simp add: update_conv')
    with IH have "map_of ups a = Some (accumulated (a_direction acc) v a es)" by simp
    then show ?thesis using True same
      by (simp add: v_def next_balance_def accumulated_Cons)
  next
    case False
    then have "map_of (AList.update ?b v bm) a = map_of bm a"
      by (simp add: update_conv')
    with IH False show ?thesis by (simp add: accumulated_Cons)
  qed
qed

lemma exact_steps_foldl:
  "exact_steps dir b es \<Longrightarrow>
     foldl (apply_entry dir) (Fin b) es = Fin (b + sum_list (map (signed_effect dir) es))"
  by (induction es arbitrary: b) (simp_all add: add.assoc)

lemma findById_update_balance:
  "findById (update_balance u rows) i =
     map_option (\<lambda>r. if i = fst u then r\<lparr>a_balance := snd u\<rparr> else r) (findById rows i)"
  by (induction rows) (auto simp: findById_def update_balance_def)

lemma findById_updateBalances:
  "distinct (map fst ups) \<Longrightarrow>
     findById (updateBalances ups rows) i =
       map_option (\<lambda>r. case map_of ups i of Some b \<Rightarrow> r\<lparr>a_balance := b\<rparr> | None \<Rightarrow> r)
         (findById rows i)"
proof (induction ups arbitrary: rows)
  case Nil
  show ?case by (simp add: option.map_ident)
next
  case (Cons u us)
  then have d: "distinct (map fst us)" and n: "fst u \<notin> set (map fst us)" by auto
  from n have none: "map_of us (fst u) = None"
    by (simp add: map_of_eq_None_iff)
  show ?case
    using Cons.IH [OF d, of "update_balance u rows"] none
    by (cases u; cases "findById rows i")
       (auto simp: findById_update_balance split: option.splits)
qed

section \<open>Posting: which failure, and when\<close>

lemma createTransaction_unbalanced:
  "exceeds_tolerance (ti_entries inp) \<Longrightarrow>
     createTransaction rnd now d inp =
       (Inl (Unbalanced (debit_total (ti_entries inp)) (credit_total (ti_entries inp))), d, [])"
  by (simp add: createTransaction_def validateEntriesBalance_totals)

lemma createTransaction_not_found:
  "\<not> exceeds_tolerance (ti_entries inp) \<Longrightarrow>
   fst (balance_loop d (ti_entries inp) []) = Inl err \<Longrightarrow>
     createTransaction rnd now d inp = (Inl err, d, snd (balance_loop d (ti_entries inp) []))"
  by (cases "balance_loop d (ti_entries inp) []")
     (simp add: createTransaction_def validateEntriesBalance_totals calculateBalanceUpdates_def)

lemma createTransaction_commit:
  "\<not> exceeds_tolerance (ti_entries inp) \<Longrightarrow>
   fst (balance_loop d (ti_entries inp) []) = Inr ups \<Longrightarrow>
     createTransaction rnd now d inp =
       (case createWithBalanceUpdates d (TransactionModel_fromInput rnd now inp) ups of
          Inl err \<Rightarrow>
            (Inl err, d, snd (balance_loop d (ti_entries inp) []) @ [CreateWithBalanceUpdates])
        | Inr (saved, d') \<Rightarrow>
            (Inr \<lparr>tr_id = t_id saved, tr_name = t_name saved,
                  tr_entries = map format_entry (t_entries saved)\<rparr>,
             d', snd (balance_loop d (ti_entries inp) []) @ [CreateWithBalanceUpdates]))"
  by (cases "balance_loop d (ti_entries inp) []")
     (simp add: createTransaction_def validateEntriesBalance_totals calculateBalanceUpdates_def
        Let_def split: sum.splits prod.splits)

lemma createWithBalanceUpdates_error:
  "createWithBalanceUpdates d t ups = Inl err \<Longrightarrow> err = StorageFailure"
  by (auto simp: createWithBalanceUpdates_def split: option.splits)

lemma createTransaction_error_kinds:
  assumes "fst (createTransaction rnd now d inp) = Inl err"
  shows "(exceeds_tolerance (ti_entries inp)
            \<and> err = Unbalanced (debit_total (ti_entries inp)) (credit_total (ti_entries inp)))
         \<or> (\<not> exceeds_tolerance (ti_entries inp)
            \<and> (\<exists>e. first_missing d (ti_entries inp) = Some e \<and> err = AccountNotFound (ei_account_id e)))
         \<or> (\<not> exceeds_tolerance (ti_entries inp)
            \<and> first_missing d (ti_entries inp) = None \<and> err = StorageFailure)"
proof (cases "exceeds_tolerance (ti_entries inp)")
  case True
  with assms show ?thesis by (simp add: createTransaction_unbalanced)
next
  case False
  show ?thesis
  proof (cases "fst (balance_loop d (ti_entries inp) [])")
    case (Inl err')
    with assms False have "err' = err" by (simp add: createTransaction_not_found)
    with balance_loop_error [OF Inl] False show ?thesis by blast
  next
    case (Inr ups)
    have none: "first_missing d (ti_entries inp) = None"
    proof (cases "first_missing d (ti_entries inp)")
      case None then show ?thesis .
    next
      case (Some e)
      from balance_loop_missing [OF Some, of "[]"] Inr show ?thesis by simp
    qed
    from assms have "err = StorageFailure"
      by (auto simp: createTransaction_commit [OF False Inr]
            split: sum.splits prod.splits dest: createWithBalanceUpdates_error)
    with False none show ?thesis by simp
  qed
qed

text \<open>
  Claim C2 as stated does not hold when the totals are the exact sums of the amounts. The
  debit amounts \<open>10 ^ 16\<close> and 1 and the credit amount \<open>10 ^ 16\<close> have totals that differ by
  1, but the code adds doubles: \<open>10 ^ 16 + 1\<close> rounds to \<open>10 ^ 16\<close>, the two totals it
  compares are equal, and the posting is accepted.
\<close>

theorem rounded_totals_counterexample:
  "exact_total DEBIT
      [entry ''A'' (Fin (10 ^ 16)) DEBIT, entry ''A'' (Fin 1) DEBIT, entry ''B'' (Fin (10 ^ 16)) CREDIT]
     - exact_total CREDIT
      [entry ''A'' (Fin (10 ^ 16)) DEBIT, entry ''A'' (Fin 1) DEBIT, entry ''B'' (Fin (10 ^ 16)) CREDIT]
     = 1
   \<and> debit_total
      [entry ''A'' (Fin (10 ^ 16)) DEBIT, entry ''A'' (Fin 1) DEBIT, entry ''B'' (Fin (10 ^ 16)) CREDIT]
     = Fin (10 ^ 16)
   \<and> credit_total
      [entry ''A'' (Fin (10 ^ 16)) DEBIT, entry ''A'' (Fin 1) DEBIT, entry ''B'' (Fin (10 ^ 16)) CREDIT]
     = Fin (10 ^ 16)
   \<and> fst (createTransaction uuid_supply 0 ledger
        (posting [entry ''A'' (Fin (10 ^ 16)) DEBIT, entry ''A'' (Fin 1) DEBIT,
                  entry ''B'' (Fin (10 ^ 16)) CREDIT]))
     = Inr \<lparr>tr_id = ''uuid-'', tr_name = [],
            tr_entries =
              [\<lparr>r_id = ''uuid-i'', r_account_id = ''A'', r_amount = Fin (10 ^ 16), r_direction = DEBIT\<rparr>,
               \<lparr>r_id = ''uuid-ii'', r_account_id = ''A'', r_amount = Fin 1, r_direction = DEBIT\<rparr>,
               \<lparr>r_id = ''uuid-iii'', r_account_id = ''B'', r_amount = Fin (10 ^ 16),
                r_direction = CREDIT\<rparr>]\<rparr>"
  by code_simp

text \<open>
  Claim C2, amended. \<^verbatim>\<open>createTransaction\<close> fails with the error that carries the two totals
  exactly when the totals accumulated in double arithmetic, in entry order, have a double
  difference whose absolute value is greater than the double 0.001; the error then carries
  these two totals, and the database returned is the one given: no balance has changed and
  no transaction or entry row was added.
\<close>

theorem unbalanced_iff_tolerance_exceeded:
  "((\<exists>dt ct. fst (createTransaction rnd now d inp) = Inl (Unbalanced dt ct))
      \<longleftrightarrow> exceeds_tolerance (ti_entries inp))
   \<and> (\<forall>dt ct. fst (createTransaction rnd now d inp) = Inl (Unbalanced dt ct) \<longrightarrow>
         dt = debit_total (ti_entries inp) \<and> ct = credit_total (ti_entries inp)
         \<and> fst (snd (createTransaction rnd now d inp)) = d)"
proof -
  have a: "fst (createTransaction rnd now d inp) = Inl (Unbalanced dt ct) \<Longrightarrow>
        exceeds_tolerance (ti_entries inp)
        \<and> dt = debit_total (ti_entries inp) \<and> ct = credit_total (ti_entries inp)" for dt ct
    using createTransaction_error_kinds [of rnd now d inp "Unbalanced dt ct"] by auto
  have b: "exceeds_tolerance (ti_entries inp) \<Longrightarrow>
        fst (createTransaction rnd now d inp)
          = Inl (Unbalanced (debit_total (ti_entries inp)) (credit_total (ti_entries inp)))
        \<and> fst (snd (createTransaction rnd now d inp)) = d"
    by (simp add: createTransaction_unbalanced)
  from a b show ?thesis by blast
qed

text \<open>Debits of 1000 against credits of 500.\<close>

theorem unbalanced_iff_tolerance_exceeded_witness:
  "exceeds_tolerance [entry ''A'' (Fin 1000) DEBIT, entry ''B'' (Fin 500) CREDIT]
   \<and> fst (createTransaction uuid_supply 0 ledger
            (posting [entry ''A'' (Fin 1000) DEBIT, entry ''B'' (Fin 500) CREDIT]))
       = Inl (Unbalanced (Fin 1000) (Fin 500))
   \<and> fst (snd (createTransaction uuid_supply 0 ledger
            (posting [entry ''A'' (Fin 1000) DEBIT, entry ''B'' (Fin 500) CREDIT]))) = ledger"
proof -
  have t: "exceeds_tolerance [entry ''A'' (Fin 1000) DEBIT, entry ''B'' (Fin 500) CREDIT]"
    by code_simp
  have e: "fst (createTransaction uuid_supply 0 ledger
            (posting [entry ''A'' (Fin 1000) DEBIT, entry ''B'' (Fin 500) CREDIT]))
       = Inl (Unbalanced (Fin 1000) (Fin 500))"
    by code_simp
  from unbalanced_iff_tolerance_exceeded [of uuid_supply 0 ledger
      "posting [entry ''A'' (Fin 1000) DEBIT, entry ''B'' (Fin 500) CREDIT]"] t e
  show ?thesis by (simp add: posting_def)
qed

section \<open>Order of the checks\<close>

text \<open>
  Claim C5 as stated does not hold when the totals are the exact sums of the amounts. The
  entries below have totals that differ by 1 and name the missing account \<open>Z\<close>; the
  totals the code compares are equal, so the validation passes, the account is looked up
  and the failure is that of the missing account.
\<close>

theorem lookup_after_rounded_totals_counterexample:
  "exact_total DEBIT
      [entry ''Z'' (Fin (10 ^ 16)) DEBIT, entry ''Z'' (Fin 1) DEBIT, entry ''B'' (Fin (10 ^ 16)) CREDIT]
     - exact_total CREDIT
      [entry ''Z'' (Fin (10 ^ 16)) DEBIT, entry ''Z'' (Fin 1) DEBIT, entry ''B'' (Fin (10 ^ 16)) CREDIT]
     = 1
   \<and> createTransaction uuid_supply 0 ledger
        (posting [entry ''Z'' (Fin (10 ^ 16)) DEBIT, entry ''Z'' (Fin 1) DEBIT,
                  entry ''B'' (Fin (10 ^ 16)) CREDIT])
     = (Inl (AccountNotFound ''Z''), ledger, [GetAccount ''Z''])"
  by code_simp

text \<open>
  Claim C5, amended. The balance check runs before any account lookup: an input whose
  totals, accumulated in double arithmetic, differ by more than the double 0.001 fails with
  the error carrying the totals and the service has made no call at all on the accounts
  service, whatever accounts the input names; and an account-not-found failure only occurs
  when that check has passed, with no call of the atomic commit and the database unchanged.
\<close>

theorem balance_check_precedes_lookup:
  "(exceeds_tolerance (ti_entries inp) \<longrightarrow>
      (\<exists>dt ct. fst (createTransaction rnd now d inp) = Inl (Unbalanced dt ct))
      \<and> snd (snd (createTransaction rnd now d inp)) = [])
   \<and> (fst (createTransaction rnd now d inp) = Inl (AccountNotFound a) \<longrightarrow>
        \<not> exceeds_tolerance (ti_entries inp)
        \<and> CreateWithBalanceUpdates \<notin> set (snd (snd (createTransaction rnd now d inp)))
        \<and> fst (snd (createTransaction rnd now d inp)) = d)"
proof (intro conjI impI)
  assume "exceeds_tolerance (ti_entries inp)"
  then have "createTransaction rnd now d inp =
      (Inl (Unbalanced (debit_total (ti_entries inp)) (credit_total (ti_entries inp))), d, [])"
    by (rule createTransaction_unbalanced)
  then show "\<exists>dt ct. fst (createTransaction rnd now d inp) = Inl (Unbalanced dt ct)"
    and "snd (snd (createTransaction rnd now d inp)) = []"
    by simp_all
next
  assume nf: "fst (createTransaction rnd now d inp) = Inl (AccountNotFound a)"
  from createTransaction_error_kinds [OF nf]
  obtain e where bal: "\<not> exceeds_tolerance (ti_entries inp)"
    and miss: "first_missing d (ti_entries inp) = Some e"
    by auto
  from bal show "\<not> exceeds_tolerance (ti_entries inp)" .
  from balance_loop_missing [OF miss, of "[]"]
  have "createTransaction rnd now d inp =
      (Inl (AccountNotFound (ei_account_id e)), d, snd (balance_loop d (ti_entries inp) []))"
    by (rule createTransaction_not_found [OF bal])
  then show "CreateWithBalanceUpdates \<notin> set (snd (snd (createTransaction rnd now d inp)))"
    and "fst (snd (createTransaction rnd now d inp)) = d"
    by (simp_all add: balance_loop_no_commit)
qed

text \<open>Account \<open>Z\<close> is not in the ledger: an unbalanced posting on it makes no lookup, a
  balanced one fails on it after the lookups and before the commit.\<close>

theorem balance_check_precedes_lookup_witness:
  "getAccount ledger ''Z'' = None
   \<and> exceeds_tolerance [entry ''Z'' (Fin 1000) DEBIT, entry ''B'' (Fin 500) CREDIT]
   \<and> snd (snd (createTransaction uuid_supply 0 ledger
            (posting [entry ''Z'' (Fin 1000) DEBIT, entry ''B'' (Fin 500) CREDIT]))) = []
   \<and> fst (createTransaction uuid_supply 0 ledger
            (posting [entry ''A'' (Fin 1000) DEBIT, entry ''Z'' (Fin 1000) CREDIT]))
       = Inl (AccountNotFound ''Z'')
   \<and> \<not> exceeds_tolerance [entry ''A'' (Fin 1000) DEBIT, entry ''Z'' (Fin 1000) CREDIT]
   \<and> CreateWithBalanceUpdates \<notin> set (snd (snd (createTransaction uuid_supply 0 ledger
            (posting [entry ''A'' (Fin 1000) DEBIT, entry ''Z'' (Fin 1000) CREDIT]))))
   \<and> fst (snd (createTransaction uuid_supply 0 ledger
            (posting [entry ''A'' (Fin 1000) DEBIT, entry ''Z'' (Fin 1000) CREDIT]))) = ledger"
proof -
  have z: "getAccount ledger ''Z'' = None"
    by code_simp
  have t: "exceeds_tolerance [entry ''Z'' (Fin 1000) DEBIT, entry ''B'' (Fin 500) CREDIT]"
    by code_simp
  have n: "fst (createTransaction uuid_supply 0 ledger
            (posting [entry ''A'' (Fin 1000) DEBIT, entry ''Z'' (Fin 1000) CREDIT]))
       = Inl (AccountNotFound ''Z'')"
    by code_simp
  from balance_check_precedes_lookup [where rnd = uuid_supply and now = 0 and d = ledger
      and inp = "posting [entry ''Z'' (Fin 1000) DEBIT, entry ''B'' (Fin 500) CREDIT]"] t
  have "snd (snd (createTransaction uuid_supply 0 ledger
            (posting [entry ''Z'' (Fin 1000) DEBIT, entry ''B'' (Fin 500) CREDIT]))) = []"
    by (simp add: posting_def)
  moreover
  from balance_check_precedes_lookup [where rnd = uuid_supply and now = 0 and d = ledger
      and inp = "posting [entry ''A'' (Fin 1000) DEBIT, entry ''Z'' (Fin 1000) CREDIT]" and a = "''Z''"] n
  have "\<not> exceeds_tolerance [entry ''A'' (Fin 1000) DEBIT, entry ''Z'' (Fin 1000) CREDIT]
     \<and> CreateWithBalanceUpdates \<notin> set (snd (snd (createTransaction uuid_supply 0 ledger
            (posting [entry ''A'' (Fin 1000) DEBIT, entry ''Z'' (Fin 1000) CREDIT]))))
     \<and> fst (snd (createTransaction uuid_supply 0 ledger
            (posting [entry ''A'' (Fin 1000) DEBIT, entry ''Z'' (Fin 1000) CREDIT]))) = ledger"
    by (simp add: posting_def)
  ultimately show ?thesis using z t n by blast
qed

lemma first_missing_exists:
  "e' \<in> set es \<Longrightarrow> getAccount d (ei_account_id e') = None \<Longrightarrow>
     \<exists>e. first_missing d es = Some e"
  by (cases "first_missing d es") (auto simp: first_missing_def find_None_iff)

text \<open>
  Claim C3 as stated does not hold: a posting that names the missing account \<open>Z\<close> and is
  also unbalanced fails with the totals, not with the missing account id.
\<close>

theorem missing_account_counterexample:
  "getAccount ledger ''Z'' = None
   \<and> fst (createTransaction uuid_supply 0 ledger
            (posting [entry ''A'' (Fin 1000) DEBIT, entry ''Z'' (Fin 500) CREDIT]))
       = Inl (Unbalanced (Fin 1000) (Fin 500))
   \<and> fst (createTransaction uuid_supply 0 ledger
            (posting [entry ''A'' (Fin 1000) DEBIT, entry ''Z'' (Fin 500) CREDIT]))
       \<noteq> Inl (AccountNotFound ''Z'')"
  by code_simp

text \<open>
  Claim C3, amended. If an entry of a posting names an account that the store does not
  have, \<^verbatim>\<open>createTransaction\<close> fails without calling the atomic commit and returns the
  database it was given; when the balance check passes (the totals accumulated in double
  arithmetic do not differ by more than the double 0.001) the error carries the account id
  of the first such entry in entry order.
\<close>

theorem missing_account_fails_before_commit:
  assumes "e' \<in> set (ti_entries inp)" and "getAccount d (ei_account_id e') = None"
  shows "\<exists>e err calls.
           first_missing d (ti_entries inp) = Some e
           \<and> createTransaction rnd now d inp = (Inl err, d, calls)
           \<and> CreateWithBalanceUpdates \<notin> set calls
           \<and> (\<not> exceeds_tolerance (ti_entries inp) \<longrightarrow> err = AccountNotFound (ei_account_id e))"
proof -
  from first_missing_exists [OF assms] obtain e
    where miss: "first_missing d (ti_entries inp) = Some e" ..
  show ?thesis
  proof (cases "exceeds_tolerance (ti_entries inp)")
    case True
    from createTransaction_unbalanced [OF True, of rnd now d] miss True show ?thesis
      by auto
  next
    case False
    from balance_loop_missing [OF miss, of "[]"]
    have "createTransaction rnd now d inp =
        (Inl (AccountNotFound (ei_account_id e)), d, snd (balance_loop d (ti_entries inp) []))"
      by (rule createTransaction_not_found [OF False])
    with miss show ?thesis by (simp add: balance_loop_no_commit)
  qed
qed

text \<open>A balanced posting whose second entry names the missing account \<open>Z\<close>.\<close>

theorem missing_account_fails_before_commit_witness:
  "entry ''Z'' (Fin 1000) CREDIT
     \<in> set (ti_entries (posting [entry ''A'' (Fin 1000) DEBIT, entry ''Z'' (Fin 1000) CREDIT]))
   \<and> getAccount ledger (ei_account_id (entry ''Z'' (Fin 1000) CREDIT)) = None
   \<and> \<not> exceeds_tolerance
        (ti_entries (posting [entry ''A'' (Fin 1000) DEBIT, entry ''Z'' (Fin 1000) CREDIT]))
   \<and> createTransaction uuid_supply 0 ledger
        (posting [entry ''A'' (Fin 1000) DEBIT, entry ''Z'' (Fin 1000) CREDIT])
       = (Inl (AccountNotFound ''Z''), ledger, [GetAccount ''A'', GetAccount ''Z''])"
proof -
  have m: "entry ''Z'' (Fin 1000) CREDIT
      \<in> set (ti_entries (posting [entry ''A'' (Fin 1000) DEBIT, entry ''Z'' (Fin 1000) CREDIT]))"
    by (simp add: posting_def)
  have z: "getAccount ledger (ei_account_id (entry ''Z'' (Fin 1000) CREDIT)) = None"
    by code_simp
  have b: "\<not> exceeds_tolerance
        (ti_entries (posting [entry ''A'' (Fin 1000) DEBIT, entry ''Z'' (Fin 1000) CREDIT]))"
    by code_simp
  have r: "createTransaction uuid_supply 0 ledger
        (posting [entry ''A'' (Fin 1000) DEBIT, entry ''Z'' (Fin 1000) CREDIT])
       = (Inl (AccountNotFound ''Z''), ledger, [GetAccount ''A'', GetAccount ''Z''])"
    by code_simp
  from missing_account_fails_before_commit [OF m z, of uuid_supply 0] m z b r
  show ?thesis by blast
qed

section \<open>The tolerance\<close>




section \<open>The balance updates of an accepted posting\<close>

lemma balance_loop_present:
  assumes "fst (balance_loop d es bm) = Inr ups" and "e \<in> set es"
  shows "\<exists>acc. getAccount d (ei_account_id e) = Some acc"
proof (cases "first_missing d es")
  case None
  with assms(2) show ?thesis by (auto simp: first_missing_def find_None_iff)
next
  case (Some x)
  from balance_loop_missing [OF Some, of bm] assms(1) show ?thesis by simp
qed

lemma calculateBalanceUpdates_keys:
  "fst (calculateBalanceUpdates d es) = Inr ups \<Longrightarrow>
     map fst ups = first_encounter (map ei_account_id es)"
  using balance_loop_keys [of d es "[]" ups] by (simp add: calculateBalanceUpdates_def)

lemma calculateBalanceUpdates_value:
  assumes "fst (calculateBalanceUpdates d es) = Inr ups" and "e \<in> set es"
  shows "\<exists>acc. getAccount d (ei_account_id e) = Some acc
           \<and> map_of ups (ei_account_id e)
               = Some (accumulated (a_direction acc) (a_balance acc) (ei_account_id e) es)"
proof -
  from assms have loop: "fst (balance_loop d es []) = Inr ups"
    by (simp add: calculateBalanceUpdates_def)
  from balance_loop_present [OF loop assms(2)] obtain acc
    where acc: "getAccount d (ei_account_id e) = Some acc" ..
  from balance_loop_value [OF loop acc] assms(2) acc show ?thesis by simp
qed

lemma balance_loop_cong:
  "\<forall>e\<in>set es. getAccount d' (ei_account_id e) = getAccount d (ei_account_id e) \<Longrightarrow>
     balance_loop d' es bm = balance_loop d es bm"
proof (induction es arbitrary: bm)
  case Nil
  show ?case by simp
next
  case (Cons e es)
  then have same: "getAccount d' (ei_account_id e) = getAccount d (ei_account_id e)"
    and rest: "\<forall>x\<in>set es. getAccount d' (ei_account_id x) = getAccount d (ei_account_id x)"
    by simp_all
  show ?case
  proof (cases "getAccount d (ei_account_id e)")
    case None
    with same show ?thesis by simp
  next
    case (Some acc)
    with same have Some': "getAccount d' (ei_account_id e) = Some acc" by simp
    show ?thesis
      by (simp only: balance_loop_Some [OF Some] balance_loop_Some [OF Some'] Cons.IH [OF rest])
  qed
qed

text \<open>
  Claim C9. The accounts of the update list appear in the order in which the entries
  first name them, and the list is a function of the entries and of the accounts they
  name: on two stores that answer the same for those accounts the calculation gives the
  identical list (and the identical lookups).
\<close>

theorem updates_in_first_encounter_order:
  "(fst (calculateBalanceUpdates d es) = Inr ups \<longrightarrow>
      map fst ups = first_encounter (map ei_account_id es))
   \<and> ((\<forall>e\<in>set es. getAccount d' (ei_account_id e) = getAccount d (ei_account_id e)) \<longrightarrow>
        calculateBalanceUpdates d' es = calculateBalanceUpdates d es)"
  by (simp add: calculateBalanceUpdates_keys calculateBalanceUpdates_def balance_loop_cong)

text \<open>Entries on \<open>B, A, B, A\<close> give the updates of \<open>B\<close> then \<open>A\<close>; a store that differs
  only in its transaction rows gives the same list.\<close>

theorem updates_in_first_encounter_order_witness:
  "fst (calculateBalanceUpdates ledger [entry ''B'' (Fin 800) DEBIT, entry ''A'' (Fin 500) CREDIT, entry ''B'' (Fin 300) CREDIT,
         entry ''A'' (Fin 600) DEBIT]) = Inr [(''B'', Fin (- 500)), (''A'', Fin 5100)]
   \<and> map fst [(''B'', Fin (- 500)), (''A'', Fin 5100)] = [''B'', ''A'']
   \<and> calculateBalanceUpdates
        (ledger\<lparr>transactions := [\<lparr>row_id = ''T'', row_name = [], row_date = 0\<rparr>]\<rparr>) [entry ''B'' (Fin 800) DEBIT, entry ''A'' (Fin 500) CREDIT, entry ''B'' (Fin 300) CREDIT,
         entry ''A'' (Fin 600) DEBIT]
       = calculateBalanceUpdates ledger [entry ''B'' (Fin 800) DEBIT, entry ''A'' (Fin 500) CREDIT, entry ''B'' (Fin 300) CREDIT,
         entry ''A'' (Fin 600) DEBIT]"
proof -
  have r: "fst (calculateBalanceUpdates ledger [entry ''B'' (Fin 800) DEBIT, entry ''A'' (Fin 500) CREDIT, entry ''B'' (Fin 300) CREDIT,
         entry ''A'' (Fin 600) DEBIT]) = Inr [(''B'', Fin (- 500)), (''A'', Fin 5100)]"
    by code_simp
  have s: "\<forall>e\<in>set [entry ''B'' (Fin 800) DEBIT, entry ''A'' (Fin 500) CREDIT, entry ''B'' (Fin 300) CREDIT,
         entry ''A'' (Fin 600) DEBIT].
      getAccount (ledger\<lparr>transactions := [\<lparr>row_id = ''T'', row_name = [], row_date = 0\<rparr>]\<rparr>)
        (ei_account_id e) = getAccount ledger (ei_account_id e)"
    by (simp add: getAccount_def)
  have f: "first_encounter (map ei_account_id [entry ''B'' (Fin 800) DEBIT, entry ''A'' (Fin 500) CREDIT, entry ''B'' (Fin 300) CREDIT,
         entry ''A'' (Fin 600) DEBIT]) = [''B'', ''A'']"
    by (simp add: entry_def)
  from updates_in_first_encounter_order [where d = ledger
      and d' = "ledger\<lparr>transactions := [\<lparr>row_id = ''T'', row_name = [], row_date = 0\<rparr>]\<rparr>"
      and es = "[entry ''B'' (Fin 800) DEBIT, entry ''A'' (Fin 500) CREDIT, entry ''B'' (Fin 300) CREDIT,
         entry ''A'' (Fin 600) DEBIT]"
      and ups = "[(''B'', Fin (- 500)), (''A'', Fin 5100)]"] r s f
  show ?thesis by simp
qed

section \<open>Accepted postings\<close>

lemma createWithBalanceUpdates_Inr:
  "createWithBalanceUpdates d t ups = Inr (saved, d') \<Longrightarrow>
     saved = t \<and> accounts d' = updateBalances ups (accounts d)
     \<and> insert_transaction (transactions d)
          \<lparr>row_id = t_id t, row_name = t_name t, row_date = t_date t\<rparr> = Some (transactions d')
     \<and> insert_entries (accounts d) (transactions d') (transaction_entries d) (t_id t) (t_entries t)
          = Some (transaction_entries d')"
  by (auto simp: createWithBalanceUpdates_def split: option.splits)

lemma createTransaction_accepted:
  assumes "createTransaction rnd now d inp = (Inr resp, d', calls)"
  shows "\<not> exceeds_tolerance (ti_entries inp)
         \<and> (\<exists>ups. fst (calculateBalanceUpdates d (ti_entries inp)) = Inr ups
              \<and> createWithBalanceUpdates d (TransactionModel_fromInput rnd now inp) ups
                  = Inr (TransactionModel_fromInput rnd now inp, d'))
         \<and> resp = \<lparr>tr_id = t_id (TransactionModel_fromInput rnd now inp),
                    tr_name = t_name (TransactionModel_fromInput rnd now inp),
                    tr_entries = map format_entry (t_entries (TransactionModel_fromInput rnd now inp))\<rparr>"
proof -
  have bal: "\<not> exceeds_tolerance (ti_entries inp)"
  proof
    assume "exceeds_tolerance (ti_entries inp)"
    from createTransaction_unbalanced [OF this, of rnd now d] assms show False by simp
  qed
  obtain ups where ups: "fst (balance_loop d (ti_entries inp) []) = Inr ups"
  proof (cases "fst (balance_loop d (ti_entries inp) [])")
    case (Inl err)
    from createTransaction_not_found [OF bal Inl, of rnd now] assms show ?thesis by simp
  next
    case (Inr ups)
    then show ?thesis by (rule that)
  qed
  from assms createTransaction_commit [OF bal ups, of rnd now]
  obtain saved where c: "createWithBalanceUpdates d (TransactionModel_fromInput rnd now inp) ups
                  = Inr (saved, d')"
    and r: "resp = \<lparr>tr_id = t_id saved, tr_name = t_name saved,
                    tr_entries = map format_entry (t_entries saved)\<rparr>"
    by (auto split: sum.splits prod.splits)
  from createWithBalanceUpdates_Inr [OF c] have "saved = TransactionModel_fromInput rnd now inp"
    by simp
  with bal ups c r show ?thesis by (simp add: calculateBalanceUpdates_def)
qed

text \<open>
  Claim C1 as stated does not hold: the balance is a double and each addition rounds.
  Account \<open>A\<close> (debit) holds \<open>10 ^ 16\<close>; the accepted posting of a debit of 1 on it leaves
  the stored balance at \<open>10 ^ 16\<close>, so the balance changes by 0 while the signed sum of
  its entries is 1.
\<close>

theorem rounded_balance_counterexample:
  "getAccount large_ledger ''A'' = Some (cash\<lparr>a_balance := Fin (10 ^ 16)\<rparr>)
   \<and> createTransaction uuid_supply 0 large_ledger
        (posting [entry ''A'' (Fin 1) DEBIT, entry ''B'' (Fin 1) CREDIT])
     = (Inr \<lparr>tr_id = ''uuid-'', tr_name = [],
             tr_entries =
               [\<lparr>r_id = ''uuid-i'', r_account_id = ''A'', r_amount = Fin 1, r_direction = DEBIT\<rparr>,
                \<lparr>r_id = ''uuid-ii'', r_account_id = ''B'', r_amount = Fin 1, r_direction = CREDIT\<rparr>]\<rparr>,
        \<lparr>accounts = [cash\<lparr>a_balance := Fin (10 ^ 16)\<rparr>, revenue\<lparr>a_balance := Fin 1\<rparr>],
         transactions = [\<lparr>row_id = ''uuid-'', row_name = [], row_date = 0\<rparr>],
         transaction_entries =
           [\<lparr>e_id = ''uuid-i'', e_transactionId = ''uuid-'', e_accountId = ''A'', e_amount = Fin 1,
             e_direction = DEBIT\<rparr>,
            \<lparr>e_id = ''uuid-ii'', e_transactionId = ''uuid-'', e_accountId = ''B'', e_amount = Fin 1,
             e_direction = CREDIT\<rparr>]\<rparr>,
        [GetAccount ''A'', GetAccount ''B'', CreateWithBalanceUpdates])
   \<and> signed_sum DEBIT ''A'' [entry ''A'' (Fin 1) DEBIT, entry ''B'' (Fin 1) CREDIT] = 1"
  by code_simp

text \<open>
  Claim C1, amended. For a posting that \<^verbatim>\<open>createTransaction\<close> accepts and for every account
  named by one of its entries, the balance stored after the call is the balance stored
  before it with the entries of that account applied in entry order, each by a double
  addition (an entry whose direction is the account's own) or a double subtraction (any
  other), rounded to nearest; when no step rounds, the new balance minus the old one is
  the signed sum over the entries of that account.
\<close>

theorem balance_change_is_accumulated:
  assumes "createTransaction rnd now d inp = (Inr resp, d', calls)"
    and "e \<in> set (ti_entries inp)"
  shows "\<exists>acc acc'.
           getAccount d (ei_account_id e) = Some acc
           \<and> getAccount d' (ei_account_id e) = Some acc'
           \<and> a_direction acc' = a_direction acc
           \<and> a_balance acc'
               = accumulated (a_direction acc) (a_balance acc) (ei_account_id e) (ti_entries inp)
           \<and> (\<forall>b. a_balance acc = Fin b
                   \<and> exact_steps (a_direction acc) b
                       (filter (\<lambda>x. ei_account_id x = ei_account_id e) (ti_entries inp))
                 \<longrightarrow> a_balance acc'
                       = Fin (b + signed_sum (a_direction acc) (ei_account_id e) (ti_entries inp)))"
proof -
  from createTransaction_accepted [OF assms(1)] obtain ups
    where ups: "fst (calculateBalanceUpdates d (ti_entries inp)) = Inr ups"
      and com: "createWithBalanceUpdates d (TransactionModel_fromInput rnd now inp) ups
                  = Inr (TransactionModel_fromInput rnd now inp, d')"
    by blast
  from calculateBalanceUpdates_value [OF ups assms(2)] obtain acc
    where acc: "getAccount d (ei_account_id e) = Some acc"
      and val: "map_of ups (ei_account_id e)
               = Some (accumulated (a_direction acc) (a_balance acc) (ei_account_id e) (ti_entries inp))"
    by blast
  have dist: "distinct (map fst ups)"
    by (simp add: calculateBalanceUpdates_keys [OF ups] distinct_first_encounter)
  from createWithBalanceUpdates_Inr [OF com]
  have "accounts d' = updateBalances ups (accounts d)" by simp
  then have new: "getAccount d' (ei_account_id e)
      = Some (acc\<lparr>a_balance := accumulated (a_direction acc) (a_balance acc) (ei_account_id e)
                                  (ti_entries inp)\<rparr>)"
    using acc val by (simp add: getAccount_def findById_updateBalances [OF dist])
  have exact: "accumulated (a_direction acc) (a_balance acc) (ei_account_id e) (ti_entries inp)
      = Fin (b + signed_sum (a_direction acc) (ei_account_id e) (ti_entries inp))"
    if "a_balance acc = Fin b"
      and "exact_steps (a_direction acc) b
             (filter (\<lambda>x. ei_account_id x = ei_account_id e) (ti_entries inp))" for b
    using exact_steps_foldl [OF that(2)] that(1) by (simp add: accumulated_def signed_sum_def)
  from acc new exact show ?thesis by simp
qed

text \<open>Two credits of 500 and 300 on the debit account \<open>A\<close> with balance 5000: no step rounds,
  the new balance is 4200 and the change is the signed sum -800.\<close>

theorem balance_change_is_accumulated_witness:
  "fst (createTransaction uuid_supply 0 ledger (posting [entry ''A'' (Fin 500) CREDIT, entry ''A'' (Fin 300) CREDIT, entry ''B'' (Fin 800) DEBIT])) = Inr \<lparr>tr_id = ''uuid-'', tr_name = [],
          tr_entries =
            [\<lparr>r_id = ''uuid-i'', r_account_id = ''A'', r_amount = Fin 500, r_direction = CREDIT\<rparr>,
             \<lparr>r_id = ''uuid-ii'', r_account_id = ''A'', r_amount = Fin 300, r_direction = CREDIT\<rparr>,
             \<lparr>r_id = ''uuid-iii'', r_account_id = ''B'', r_amount = Fin 800, r_direction = DEBIT\<rparr>]\<rparr>
   \<and> entry ''A'' (Fin 500) CREDIT \<in> set [entry ''A'' (Fin 500) CREDIT, entry ''A'' (Fin 300) CREDIT, entry ''B'' (Fin 800) DEBIT]
   \<and> getAccount ledger ''A'' = Some cash
   \<and> a_balance cash = Fin 5000
   \<and> exact_steps DEBIT 5000 (filter (\<lambda>x. ei_account_id x = ''A'') [entry ''A'' (Fin 500) CREDIT, entry ''A'' (Fin 300) CREDIT, entry ''B'' (Fin 800) DEBIT])
   \<and> signed_sum DEBIT ''A'' [entry ''A'' (Fin 500) CREDIT, entry ''A'' (Fin 300) CREDIT, entry ''B'' (Fin 800) DEBIT] = - 800
   \<and> accumulated DEBIT (Fin 5000) ''A'' [entry ''A'' (Fin 500) CREDIT, entry ''A'' (Fin 300) CREDIT, entry ''B'' (Fin 800) DEBIT] = Fin 4200
   \<and> (\<exists>acc'. getAccount (fst (snd (createTransaction uuid_supply 0 ledger (posting [entry ''A'' (Fin 500) CREDIT, entry ''A'' (Fin 300) CREDIT, entry ''B'' (Fin 800) DEBIT])))) ''A''
               = Some acc'
         \<and> a_balance acc' = Fin 4200)"
proof -
  have r: "createTransaction uuid_supply 0 ledger (posting [entry ''A'' (Fin 500) CREDIT, entry ''A'' (Fin 300) CREDIT, entry ''B'' (Fin 800) DEBIT])
      = (Inr \<lparr>tr_id = ''uuid-'', tr_name = [],
          tr_entries =
            [\<lparr>r_id = ''uuid-i'', r_account_id = ''A'', r_amount = Fin 500, r_direction = CREDIT\<rparr>,
             \<lparr>r_id = ''uuid-ii'', r_account_id = ''A'', r_amount = Fin 300, r_direction = CREDIT\<rparr>,
             \<lparr>r_id = ''uuid-iii'', r_account_id = ''B'', r_amount = Fin 800, r_direction = DEBIT\<rparr>]\<rparr>,
         fst (snd (createTransaction uuid_supply 0 ledger (posting [entry ''A'' (Fin 500) CREDIT, entry ''A'' (Fin 300) CREDIT, entry ''B'' (Fin 800) DEBIT]))),
         snd (snd (createTransaction uuid_supply 0 ledger (posting [entry ''A'' (Fin 500) CREDIT, entry ''A'' (Fin 300) CREDIT, entry ''B'' (Fin 800) DEBIT]))))"
    by code_simp
  have m: "entry ''A'' (Fin 500) CREDIT \<in> set (ti_entries (posting [entry ''A'' (Fin 500) CREDIT, entry ''A'' (Fin 300) CREDIT, entry ''B'' (Fin 800) DEBIT]))"
    by (simp add: posting_def)
  have a: "getAccount ledger ''A'' = Some cash"
    by code_simp
  have b: "a_balance cash = Fin 5000" and dir: "a_direction cash = DEBIT"
    by (simp_all add: cash_def)
  have x: "exact_steps DEBIT 5000 (filter (\<lambda>x. ei_account_id x = ''A'') [entry ''A'' (Fin 500) CREDIT, entry ''A'' (Fin 300) CREDIT, entry ''B'' (Fin 800) DEBIT])"
    by code_simp
  have s: "signed_sum DEBIT ''A'' [entry ''A'' (Fin 500) CREDIT, entry ''A'' (Fin 300) CREDIT, entry ''B'' (Fin 800) DEBIT] = - 800"
    by code_simp
  have c: "accumulated DEBIT (Fin 5000) ''A'' [entry ''A'' (Fin 500) CREDIT, entry ''A'' (Fin 300) CREDIT, entry ''B'' (Fin 800) DEBIT] = Fin 4200"
    by code_simp
  have i: "ei_account_id (entry ''A'' (Fin 500) CREDIT) = ''A''"
    and t: "ti_entries (posting [entry ''A'' (Fin 500) CREDIT, entry ''A'' (Fin 300) CREDIT, entry ''B'' (Fin 800) DEBIT]) = [entry ''A'' (Fin 500) CREDIT, entry ''A'' (Fin 300) CREDIT, entry ''B'' (Fin 800) DEBIT]"
    by (simp_all add: entry_def posting_def)
  from balance_change_is_accumulated [OF r m] a b dir x s
  have "\<exists>acc'. getAccount (fst (snd (createTransaction uuid_supply 0 ledger (posting [entry ''A'' (Fin 500) CREDIT, entry ''A'' (Fin 300) CREDIT, entry ''B'' (Fin 800) DEBIT])))) ''A''
               = Some acc'
         \<and> a_balance acc' = Fin 4200"
    by (auto simp: i t)
  moreover from r have "fst (createTransaction uuid_supply 0 ledger (posting [entry ''A'' (Fin 500) CREDIT, entry ''A'' (Fin 300) CREDIT, entry ''B'' (Fin 800) DEBIT])) = Inr \<lparr>tr_id = ''uuid-'', tr_name = [],
          tr_entries =
            [\<lparr>r_id = ''uuid-i'', r_account_id = ''A'', r_amount = Fin 500, r_direction = CREDIT\<rparr>,
             \<lparr>r_id = ''uuid-ii'', r_account_id = ''A'', r_amount = Fin 300, r_direction = CREDIT\<rparr>,
             \<lparr>r_id = ''uuid-iii'', r_account_id = ''B'', r_amount = Fin 800, r_direction = DEBIT\<rparr>]\<rparr>"
    by (metis fst_conv)
  ultimately show ?thesis using m a b x s c by (simp add: t)
qed



section \<open>The two sides of an accepted posting\<close>

lemma tolerance_value: "number_value (1 / 1000) = Fin (1152921504606847 / 2 ^ 60)"
  by code_simp

lemma fadd_representable: "fadd x y = Fin b \<Longrightarrow> number_value b = Fin b"
  by (cases x; cases y) (auto dest: number_value_idem)

lemma foldl_fadd_representable:
  "(\<forall>b. acc = Fin b \<longrightarrow> number_value b = Fin b) \<Longrightarrow> foldl fadd acc xs = Fin a \<Longrightarrow>
     number_value a = Fin a"
proof (induction xs arbitrary: acc)
  case Nil
  then show ?case by simp
next
  case (Cons x xs)
  have "\<forall>b. fadd acc x = Fin b \<longrightarrow> number_value b = Fin b"
    by (auto dest: fadd_representable)
  from Cons.IH [OF this] Cons.prems(2) show ?case by simp
qed

lemma total_representable:
  "debit_total es = Fin a \<Longrightarrow> number_value a = Fin a"
  "credit_total es = Fin a \<Longrightarrow> number_value a = Fin a"
  unfolding debit_total_def credit_total_def
  by (erule foldl_fadd_representable [rotated], simp add: number_value_def)+

lemma total_without_entries:
  "\<forall>e\<in>set es. ei_direction e \<noteq> DEBIT \<Longrightarrow> debit_total es = Fin 0"
  "\<forall>e\<in>set es. ei_direction e \<noteq> CREDIT \<Longrightarrow> credit_total es = Fin 0"
  by (simp_all add: debit_total_def credit_total_def filter_False)

lemma debits_alone_exceed:
  assumes "\<forall>e\<in>set es. ei_direction e \<noteq> CREDIT"
    and "fgt (debit_total es) (number_value (1 / 1000))"
  shows "exceeds_tolerance es"
proof (cases "debit_total es")
  case (Fin a)
  from total_representable(1) [OF Fin] have "fsub (Fin a) (Fin 0) = Fin a"
    by (simp add: fsub_def)
  with assms Fin show ?thesis
    by (simp add: exceeds_tolerance_def total_without_entries tolerance_value)
next
  case PInf
  with assms show ?thesis
    by (simp add: exceeds_tolerance_def total_without_entries tolerance_value fsub_def)
next
  case NInf
  with assms(2) show ?thesis by (simp add: tolerance_value)
next
  case NaN
  with assms(2) show ?thesis by simp
qed

lemma credits_alone_exceed:
  assumes "\<forall>e\<in>set es. ei_direction e \<noteq> DEBIT"
    and "fgt (credit_total es) (number_value (1 / 1000))"
  shows "exceeds_tolerance es"
proof (cases "credit_total es")
  case (Fin a)
  from total_representable(2) [OF Fin] have "fsub (Fin 0) (Fin a) = Fin (- a)"
    by (simp add: fsub_def number_value_minus)
  with assms Fin show ?thesis
    by (simp add: exceeds_tolerance_def total_without_entries tolerance_value)
next
  case PInf
  with assms show ?thesis
    by (simp add: exceeds_tolerance_def total_without_entries tolerance_value fsub_def)
next
  case NInf
  with assms(2) show ?thesis by (simp add: tolerance_value)
next
  case NaN
  with assms(2) show ?thesis by simp
qed

text \<open>
  Claim C6 as stated does not hold: two debit entries of 0.0005 on account \<open>A\<close> are
  accepted, although no entry has direction credit and the totals are 0.001 and 0.
\<close>

theorem one_sided_posting_counterexample:
  "fst (createTransaction uuid_supply 0 ledger (posting [entry ''A'' (number_value (5 / 10000)) DEBIT, entry ''A'' (number_value (5 / 10000)) DEBIT]))
     = Inr \<lparr>tr_id = ''uuid-'', tr_name = [],
            tr_entries =
              [\<lparr>r_id = ''uuid-i'', r_account_id = ''A'', r_amount = number_value (5 / 10000),
                r_direction = DEBIT\<rparr>,
               \<lparr>r_id = ''uuid-ii'', r_account_id = ''A'', r_amount = number_value (5 / 10000),
                r_direction = DEBIT\<rparr>]\<rparr>
   \<and> CREDIT \<notin> set (map ei_direction [entry ''A'' (number_value (5 / 10000)) DEBIT, entry ''A'' (number_value (5 / 10000)) DEBIT])
   \<and> debit_total [entry ''A'' (number_value (5 / 10000)) DEBIT, entry ''A'' (number_value (5 / 10000)) DEBIT] = number_value (1 / 1000)
   \<and> credit_total [entry ''A'' (number_value (5 / 10000)) DEBIT, entry ''A'' (number_value (5 / 10000)) DEBIT] = Fin 0"
  by code_simp

text \<open>
  Claim C6, amended. The totals of the two sides of every posting that
  \<^verbatim>\<open>createTransaction\<close> accepts and commits, accumulated in double arithmetic, have a double
  difference whose absolute value is not greater than the double 0.001; and when the total of
  one side is greater than the double 0.001, the posting has at least one entry of direction
  debit and at least one of direction credit.
\<close>

theorem accepted_posting_balances_within_tolerance:
  assumes "createTransaction rnd now d inp = (Inr resp, d', calls)"
  shows "\<not> fgt (fabs (fsub (debit_total (ti_entries inp)) (credit_total (ti_entries inp))))
             (number_value (1 / 1000))
         \<and> (fgt (debit_total (ti_entries inp)) (number_value (1 / 1000))
              \<or> fgt (credit_total (ti_entries inp)) (number_value (1 / 1000))
            \<longrightarrow> (\<exists>e\<in>set (ti_entries inp). ei_direction e = DEBIT)
                \<and> (\<exists>e\<in>set (ti_entries inp). ei_direction e = CREDIT))"
proof (intro conjI impI)
  from createTransaction_accepted [OF assms]
  have tol: "\<not> exceeds_tolerance (ti_entries inp)" by blast
  then show "\<not> fgt (fabs (fsub (debit_total (ti_entries inp)) (credit_total (ti_entries inp))))
             (number_value (1 / 1000))"
    by (simp add: exceeds_tolerance_def)
  assume h: "fgt (debit_total (ti_entries inp)) (number_value (1 / 1000))
              \<or> fgt (credit_total (ti_entries inp)) (number_value (1 / 1000))"
  have zero: "\<not> fgt (Fin 0) (number_value (1 / 1000))"
    by (simp add: tolerance_value)
  show "\<exists>e\<in>set (ti_entries inp). ei_direction e = DEBIT"
  proof (rule ccontr)
    assume "\<not> (\<exists>e\<in>set (ti_entries inp). ei_direction e = DEBIT)"
    then have none: "\<forall>e\<in>set (ti_entries inp). ei_direction e \<noteq> DEBIT" by simp
    with h zero have "fgt (credit_total (ti_entries inp)) (number_value (1 / 1000))"
      by (simp add: total_without_entries)
    from credits_alone_exceed [OF none this] tol show False by simp
  qed
  show "\<exists>e\<in>set (ti_entries inp). ei_direction e = CREDIT"
  proof (rule ccontr)
    assume "\<not> (\<exists>e\<in>set (ti_entries inp). ei_direction e = CREDIT)"
    then have none: "\<forall>e\<in>set (ti_entries inp). ei_direction e \<noteq> CREDIT" by simp
    with h zero have "fgt (debit_total (ti_entries inp)) (number_value (1 / 1000))"
      by (simp add: total_without_entries)
    from debits_alone_exceed [OF none this] tol show False by simp
  qed
qed

text \<open>The accepted posting of 1000.0001 debit against 1000.00009 credit: both sides are
  present and the totals are within the tolerance, without being equal.\<close>

theorem accepted_posting_balances_within_tolerance_witness:
  "fst (createTransaction uuid_supply 0 ledger (posting [entry ''A'' (number_value (10000001 / 10000)) DEBIT,
       entry ''B'' (number_value (100000009 / 100000)) CREDIT]))
     = Inr \<lparr>tr_id = ''uuid-'', tr_name = [],
            tr_entries =
              [\<lparr>r_id = ''uuid-i'', r_account_id = ''A'',
                r_amount = number_value (10000001 / 10000), r_direction = DEBIT\<rparr>,
               \<lparr>r_id = ''uuid-ii'', r_account_id = ''B'',
                r_amount = number_value (100000009 / 100000), r_direction = CREDIT\<rparr>]\<rparr>
   \<and> fgt (debit_total [entry ''A'' (number_value (10000001 / 10000)) DEBIT,
       entry ''B'' (number_value (100000009 / 100000)) CREDIT]) (number_value (1 / 1000))
   \<and> \<not> fgt (fabs (fsub (debit_total [entry ''A'' (number_value (10000001 / 10000)) DEBIT,
       entry ''B'' (number_value (100000009 / 100000)) CREDIT]) (credit_total [entry ''A'' (number_value (10000001 / 10000)) DEBIT,
       entry ''B'' (number_value (100000009 / 100000)) CREDIT]))) (number_value (1 / 1000))
   \<and> debit_total [entry ''A'' (number_value (10000001 / 10000)) DEBIT,
       entry ''B'' (number_value (100000009 / 100000)) CREDIT] \<noteq> credit_total [entry ''A'' (number_value (10000001 / 10000)) DEBIT,
       entry ''B'' (number_value (100000009 / 100000)) CREDIT]
   \<and> (\<exists>e\<in>set [entry ''A'' (number_value (10000001 / 10000)) DEBIT,
       entry ''B'' (number_value (100000009 / 100000)) CREDIT]. ei_direction e = DEBIT)
   \<and> (\<exists>e\<in>set [entry ''A'' (number_value (10000001 / 10000)) DEBIT,
       entry ''B'' (number_value (100000009 / 100000)) CREDIT]. ei_direction e = CREDIT)"
proof -
  have r: "createTransaction uuid_supply 0 ledger (posting [entry ''A'' (number_value (10000001 / 10000)) DEBIT,
       entry ''B'' (number_value (100000009 / 100000)) CREDIT])
     = (Inr \<lparr>tr_id = ''uuid-'', tr_name = [],
            tr_entries =
              [\<lparr>r_id = ''uuid-i'', r_account_id = ''A'',
                r_amount = number_value (10000001 / 10000), r_direction = DEBIT\<rparr>,
               \<lparr>r_id = ''uuid-ii'', r_account_id = ''B'',
                r_amount = number_value (100000009 / 100000), r_direction = CREDIT\<rparr>]\<rparr>,
        fst (snd (createTransaction uuid_supply 0 ledger (posting [entry ''A'' (number_value (10000001 / 10000)) DEBIT,
       entry ''B'' (number_value (100000009 / 100000)) CREDIT]))),
        snd (snd (createTransaction uuid_supply 0 ledger (posting [entry ''A'' (number_value (10000001 / 10000)) DEBIT,
       entry ''B'' (number_value (100000009 / 100000)) CREDIT]))))"
    by code_simp
  have t: "fgt (debit_total [entry ''A'' (number_value (10000001 / 10000)) DEBIT,
       entry ''B'' (number_value (100000009 / 100000)) CREDIT]) (number_value (1 / 1000))"
    by code_simp
  have n: "debit_total [entry ''A'' (number_value (10000001 / 10000)) DEBIT,
       entry ''B'' (number_value (100000009 / 100000)) CREDIT] \<noteq> credit_total [entry ''A'' (number_value (10000001 / 10000)) DEBIT,
       entry ''B'' (number_value (100000009 / 100000)) CREDIT]"
    by code_simp
  have e: "ti_entries (posting [entry ''A'' (number_value (10000001 / 10000)) DEBIT,
       entry ''B'' (number_value (100000009 / 100000)) CREDIT]) = [entry ''A'' (number_value (10000001 / 10000)) DEBIT,
       entry ''B'' (number_value (100000009 / 100000)) CREDIT]"
    by (simp add: posting_def)
  from accepted_posting_balances_within_tolerance [OF r] t
  have "\<not> fgt (fabs (fsub (debit_total [entry ''A'' (number_value (10000001 / 10000)) DEBIT,
       entry ''B'' (number_value (100000009 / 100000)) CREDIT]) (credit_total [entry ''A'' (number_value (10000001 / 10000)) DEBIT,
       entry ''B'' (number_value (100000009 / 100000)) CREDIT]))) (number_value (1 / 1000))
     \<and> (\<exists>e\<in>set [entry ''A'' (number_value (10000001 / 10000)) DEBIT,
       entry ''B'' (number_value (100000009 / 100000)) CREDIT]. ei_direction e = DEBIT)
     \<and> (\<exists>e\<in>set [entry ''A'' (number_value (10000001 / 10000)) DEBIT,
       entry ''B'' (number_value (100000009 / 100000)) CREDIT]. ei_direction e = CREDIT)"
    by (simp only: e) blast
  moreover from r have "fst (createTransaction uuid_supply 0 ledger (posting [entry ''A'' (number_value (10000001 / 10000)) DEBIT,
       entry ''B'' (number_value (100000009 / 100000)) CREDIT]))
     = Inr \<lparr>tr_id = ''uuid-'', tr_name = [],
            tr_entries =
              [\<lparr>r_id = ''uuid-i'', r_account_id = ''A'',
                r_amount = number_value (10000001 / 10000), r_direction = DEBIT\<rparr>,
               \<lparr>r_id = ''uuid-ii'', r_account_id = ''B'',
                r_amount = number_value (100000009 / 100000), r_direction = CREDIT\<rparr>]\<rparr>"
    by (metis fst_conv)
  ultimately show ?thesis using t n by blast
qed

section \<open>Identifiers and the stored rows\<close>

lemma or_randomUUID_eq:
  "or_randomUUID rnd k x = (if no_id x then (rnd k, Suc k) else (the x, k))"
  by (auto simp: or_randomUUID_def no_id_def split: option.splits)

lemma length_map_fromInput: "length (map_fromInput rnd k es tid) = length es"
  by (induction es arbitrary: k)
     (auto simp: TransactionEntryModel_fromInput_def split: prod.splits)

lemma map_fromInput_nth:
  "i < length es \<Longrightarrow>
     map_fromInput rnd k es tid ! i =
       \<lparr>e_id = (if no_id (ei_id (es ! i))
                then rnd (k + length (filter (\<lambda>e. no_id (ei_id e)) (take i es)))
                else the (ei_id (es ! i))),
        e_transactionId = tid, e_accountId = ei_account_id (es ! i),
        e_amount = ei_amount (es ! i), e_direction = ei_direction (es ! i)\<rparr>"
proof (induction es arbitrary: k i)
  case Nil
  then show ?case by simp
next
  case (Cons e es)
  show ?case
  proof (cases i)
    case 0
    then show ?thesis
      by (simp add: TransactionEntryModel_fromInput_def or_randomUUID_eq)
  next
    case (Suc j)
    with Cons.prems have j: "j < length es" by simp
    show ?thesis
      using Cons.IH [OF j, of "Suc k"] Cons.IH [OF j, of k] Suc
      by (simp add: TransactionEntryModel_fromInput_def or_randomUUID_eq)
  qed
qed

lemma insert_entries_Some:
  "insert_entries accs txs rows tid es = Some rows' \<Longrightarrow>
     rows' = rows @ map (\<lambda>m. m\<lparr>e_transactionId := tid\<rparr>) es
     \<and> distinct (map e_id es)
     \<and> set (map e_id es) \<inter> set (map e_id rows) = {}"
proof (induction es arbitrary: rows)
  case Nil
  then show ?case by simp
next
  case (Cons e es)
  from Cons.prems have new: "e_id e \<notin> set (map e_id rows)"
    and rec: "insert_entries accs txs (rows @ [e\<lparr>e_transactionId := tid\<rparr>]) tid es = Some rows'"
    by (auto simp: insert_entry_def split: option.splits if_splits)
  from Cons.IH [OF rec] new show ?case by auto
qed

lemma stored_format_entry:
  "\<forall>m\<in>set ms. e_transactionId m = tid \<Longrightarrow>
     map (stored_entry tid) (map format_entry ms) = ms"
  by (induction ms) (auto simp: stored_entry_def format_entry_def)

lemma map_fromInput_owner: "\<forall>m\<in>set (map_fromInput rnd k es tid). e_transactionId m = tid"
  by (induction es arbitrary: k)
     (auto simp: TransactionEntryModel_fromInput_def split: prod.splits)

lemma map_fromInput_fields:
  "map e_accountId (map_fromInput rnd k es tid) = map ei_account_id es
   \<and> map e_amount (map_fromInput rnd k es tid) = map ei_amount es
   \<and> map e_direction (map_fromInput rnd k es tid) = map ei_direction es"
  by (induction es arbitrary: k)
     (auto simp: TransactionEntryModel_fromInput_def split: prod.splits)

lemma TransactionModel_fromInput_eq:
  "TransactionModel_fromInput rnd now inp =
     \<lparr>t_id = (if no_id (ti_id inp) then rnd 0 else the (ti_id inp)),
      t_name = (case ti_name inp of None \<Rightarrow> [] | Some n \<Rightarrow> n),
      t_date = now,
      t_entries = map_fromInput rnd (if no_id (ti_id inp) then 1 else 0) (ti_entries inp)
                    (if no_id (ti_id inp) then rnd 0 else the (ti_id inp))\<rparr>"
  by (simp add: TransactionModel_fromInput_def or_randomUUID_eq)

text \<open>
  Claim C10 as stated does not hold: an identifier that the input supplies as the empty
  string is not kept. The posting and its first entry below carry the empty string as
  identifier and come back with values of the supply; the identifier \<open>E2\<close> is kept.
\<close>
theorem empty_identifier_counterexample:
  "fst (createTransaction uuid_supply 0 ledger
          \<lparr>ti_id = Some [], ti_name = None,
           ti_entries =
             [\<lparr>ei_id = Some [], ei_account_id = ''A'', ei_amount = Fin 1000, ei_direction = DEBIT\<rparr>,
              \<lparr>ei_id = Some ''E2'', ei_account_id = ''B'', ei_amount = Fin 1000, ei_direction = CREDIT\<rparr>]\<rparr>)
     = Inr \<lparr>tr_id = ''uuid-'', tr_name = [],
            tr_entries =
              [\<lparr>r_id = ''uuid-i'', r_account_id = ''A'', r_amount = Fin 1000, r_direction = DEBIT\<rparr>,
               \<lparr>r_id = ''E2'', r_account_id = ''B'', r_amount = Fin 1000, r_direction = CREDIT\<rparr>]\<rparr>"
  by code_simp

text \<open>
  Claim C10, amended. The response of a successful \<^verbatim>\<open>createTransaction\<close> has one entry per
  input entry, in the same order, with the account id, amount and direction of the input
  entry. A non-empty identifier of the input (of the posting, of an entry) is kept; an
  absent or empty one is replaced by the next value of the identifier supply. An absent
  name becomes the empty string. The rows added to \<^verbatim>\<open>transaction_entries\<close> are the entries of
  the response, each with the identifier of the transaction as its transaction id; and the
  identifiers of the response are new to the store: the transaction's is not among the
  stored transactions, the entries' are distinct and not among the stored entries.
\<close>
theorem response_preserves_input:
  assumes "createTransaction rnd now d inp = (Inr resp, d', calls)"
  shows "map r_account_id (tr_entries resp) = map ei_account_id (ti_entries inp)
         \<and> map r_amount (tr_entries resp) = map ei_amount (ti_entries inp)
         \<and> map r_direction (tr_entries resp) = map ei_direction (ti_entries inp)
         \<and> (\<forall>s. ti_id inp = Some s \<and> s \<noteq> [] \<longrightarrow> tr_id resp = s)
         \<and> (no_id (ti_id inp) \<longrightarrow> tr_id resp = rnd 0)
         \<and> (\<forall>i<length (ti_entries inp).
               (\<forall>s. ei_id (ti_entries inp ! i) = Some s \<and> s \<noteq> [] \<longrightarrow>
                    r_id (tr_entries resp ! i) = s)
               \<and> (no_id (ei_id (ti_entries inp ! i)) \<longrightarrow>
                    r_id (tr_entries resp ! i)
                      = rnd (draws_before (ti_id inp) (take i (ti_entries inp)))))
         \<and> tr_name resp = (case ti_name inp of None \<Rightarrow> [] | Some n \<Rightarrow> n)
         \<and> transaction_entries d'
             = transaction_entries d @ map (stored_entry (tr_id resp)) (tr_entries resp)
         \<and> tr_id resp \<notin> set (map row_id (transactions d))
         \<and> distinct (map r_id (tr_entries resp))
         \<and> set (map r_id (tr_entries resp)) \<inter> set (map e_id (transaction_entries d)) = {}"
proof -
  define t where "t = TransactionModel_fromInput rnd now inp"
  define k :: nat where "k = (if no_id (ti_id inp) then 1 else 0)"
  from createTransaction_accepted [OF assms] obtain ups
    where com: "createWithBalanceUpdates d t ups = Inr (t, d')"
      and resp: "resp = \<lparr>tr_id = t_id t, tr_name = t_name t,
                         tr_entries = map format_entry (t_entries t)\<rparr>"
    unfolding t_def by blast
  have tid: "t_id t = (if no_id (ti_id inp) then rnd 0 else the (ti_id inp))"
    and tname: "t_name t = (case ti_name inp of None \<Rightarrow> [] | Some n \<Rightarrow> n)"
    and tent: "t_entries t = map_fromInput rnd k (ti_entries inp) (t_id t)"
    by (simp_all add: t_def k_def TransactionModel_fromInput_eq)
  have rid: "map r_id (tr_entries resp) = map e_id (t_entries t)"
    by (simp add: resp format_entry_def)
  have fields: "map r_account_id (tr_entries resp) = map ei_account_id (ti_entries inp)"
    "map r_amount (tr_entries resp) = map ei_amount (ti_entries inp)"
    "map r_direction (tr_entries resp) = map ei_direction (ti_entries inp)"
    using map_fromInput_fields [of rnd k "ti_entries inp" "t_id t"]
    by (simp_all add: resp tent format_entry_def comp_def)
  have ids: "(\<forall>s. ti_id inp = Some s \<and> s \<noteq> [] \<longrightarrow> tr_id resp = s)"
    "no_id (ti_id inp) \<longrightarrow> tr_id resp = rnd 0"
    by (auto simp: resp tid no_id_def)
  have entry_ids: "\<forall>i<length (ti_entries inp).
               (\<forall>s. ei_id (ti_entries inp ! i) = Some s \<and> s \<noteq> [] \<longrightarrow>
                    r_id (tr_entries resp ! i) = s)
               \<and> (no_id (ei_id (ti_entries inp ! i)) \<longrightarrow>
                    r_id (tr_entries resp ! i)
                      = rnd (draws_before (ti_id inp) (take i (ti_entries inp))))"
  proof (intro allI impI)
    fix i assume i: "i < length (ti_entries inp)"
    then have "tr_entries resp ! i = format_entry (map_fromInput rnd k (ti_entries inp) (t_id t) ! i)"
      by (simp add: resp tent length_map_fromInput)
    then have "r_id (tr_entries resp ! i) =
        (if no_id (ei_id (ti_entries inp ! i))
         then rnd (draws_before (ti_id inp) (take i (ti_entries inp)))
         else the (ei_id (ti_entries inp ! i)))"
      by (simp add: map_fromInput_nth [OF i] format_entry_def draws_before_def k_def)
    then show "(\<forall>s. ei_id (ti_entries inp ! i) = Some s \<and> s \<noteq> [] \<longrightarrow>
                    r_id (tr_entries resp ! i) = s)
               \<and> (no_id (ei_id (ti_entries inp ! i)) \<longrightarrow>
                    r_id (tr_entries resp ! i)
                      = rnd (draws_before (ti_id inp) (take i (ti_entries inp))))"
      by (auto simp: no_id_def)
  qed
  from createWithBalanceUpdates_Inr [OF com]
  have ins_t: "insert_transaction (transactions d)
          \<lparr>row_id = t_id t, row_name = t_name t, row_date = t_date t\<rparr> = Some (transactions d')"
    and ins_e: "insert_entries (accounts d) (transactions d') (transaction_entries d) (t_id t)
          (t_entries t) = Some (transaction_entries d')"
    by simp_all
  from ins_t have fresh_t: "tr_id resp \<notin> set (map row_id (transactions d))"
    by (auto simp: insert_transaction_def resp split: if_splits)
  note st = insert_entries_Some [OF ins_e]
  have own: "\<forall>m\<in>set (t_entries t). e_transactionId m = t_id t"
    using map_fromInput_owner [of rnd k "ti_entries inp" "t_id t"] by (simp add: tent)
  then have "map (\<lambda>m. m\<lparr>e_transactionId := t_id t\<rparr>) (t_entries t) = t_entries t"
    by (simp add: map_idI)
  with st have "transaction_entries d' = transaction_entries d @ t_entries t" by simp
  also have "t_entries t = map (stored_entry (tr_id resp)) (tr_entries resp)"
    using stored_format_entry [OF own] by (simp add: resp)
  finally have stored: "transaction_entries d'
             = transaction_entries d @ map (stored_entry (tr_id resp)) (tr_entries resp)" .
  from st have fresh_e: "distinct (map r_id (tr_entries resp))"
    "set (map r_id (tr_entries resp)) \<inter> set (map e_id (transaction_entries d)) = {}"
    by (simp_all only: rid)
  from fields ids entry_ids stored fresh_t fresh_e tname resp show ?thesis
    by simp
qed

text \<open>A posting with its own identifier, one entry with an identifier and one without.\<close>

theorem response_preserves_input_witness:
  "createTransaction uuid_supply 0 ledger
      \<lparr>ti_id = Some ''T1'', ti_name = None,
        ti_entries =
          [\<lparr>ei_id = Some ''E1'', ei_account_id = ''A'', ei_amount = Fin 1000, ei_direction = DEBIT\<rparr>,
           \<lparr>ei_id = None, ei_account_id = ''B'', ei_amount = Fin 1000, ei_direction = CREDIT\<rparr>]\<rparr>
     = (Inr \<lparr>tr_id = ''T1'', tr_name = [],
             tr_entries =
               [\<lparr>r_id = ''E1'', r_account_id = ''A'', r_amount = Fin 1000, r_direction = DEBIT\<rparr>,
                \<lparr>r_id = ''uuid-'', r_account_id = ''B'', r_amount = Fin 1000, r_direction = CREDIT\<rparr>]\<rparr>,
        \<lparr>accounts = [cash\<lparr>a_balance := Fin 6000\<rparr>, revenue\<lparr>a_balance := Fin 1000\<rparr>],
         transactions = [\<lparr>row_id = ''T1'', row_name = [], row_date = 0\<rparr>],
         transaction_entries =
           [\<lparr>e_id = ''E1'', e_transactionId = ''T1'', e_accountId = ''A'', e_amount = Fin 1000,
             e_direction = DEBIT\<rparr>,
            \<lparr>e_id = ''uuid-'', e_transactionId = ''T1'', e_accountId = ''B'', e_amount = Fin 1000,
             e_direction = CREDIT\<rparr>]\<rparr>,
        [GetAccount ''A'', GetAccount ''B'', CreateWithBalanceUpdates])
   \<and> no_id None
   \<and> uuid_supply (draws_before (Some ''T1'')
        (take 1 [\<lparr>ei_id = Some ''E1'', ei_account_id = ''A'', ei_amount = Fin 1000, ei_direction = DEBIT\<rparr>,
                 \<lparr>ei_id = None, ei_account_id = ''B'', ei_amount = Fin 1000, ei_direction = CREDIT\<rparr>]))
       = ''uuid-''
   \<and> transaction_entries ledger
        @ map (stored_entry ''T1'')
            [\<lparr>r_id = ''E1'', r_account_id = ''A'', r_amount = Fin 1000, r_direction = DEBIT\<rparr>,
             \<lparr>r_id = ''uuid-'', r_account_id = ''B'', r_amount = Fin 1000, r_direction = CREDIT\<rparr>]
       = [\<lparr>e_id = ''E1'', e_transactionId = ''T1'', e_accountId = ''A'', e_amount = Fin 1000,
           e_direction = DEBIT\<rparr>,
          \<lparr>e_id = ''uuid-'', e_transactionId = ''T1'', e_accountId = ''B'', e_amount = Fin 1000,
           e_direction = CREDIT\<rparr>]"
proof -
  have r: "createTransaction uuid_supply 0 ledger
      \<lparr>ti_id = Some ''T1'', ti_name = None,
        ti_entries =
          [\<lparr>ei_id = Some ''E1'', ei_account_id = ''A'', ei_amount = Fin 1000, ei_direction = DEBIT\<rparr>,
           \<lparr>ei_id = None, ei_account_id = ''B'', ei_amount = Fin 1000, ei_direction = CREDIT\<rparr>]\<rparr>
     = (Inr \<lparr>tr_id = ''T1'', tr_name = [],
             tr_entries =
               [\<lparr>r_id = ''E1'', r_account_id = ''A'', r_amount = Fin 1000, r_direction = DEBIT\<rparr>,
                \<lparr>r_id = ''uuid-'', r_account_id = ''B'', r_amount = Fin 1000, r_direction = CREDIT\<rparr>]\<rparr>,
        \<lparr>accounts = [cash\<lparr>a_balance := Fin 6000\<rparr>, revenue\<lparr>a_balance := Fin 1000\<rparr>],
         transactions = [\<lparr>row_id = ''T1'', row_name = [], row_date = 0\<rparr>],
         transaction_entries =
           [\<lparr>e_id = ''E1'', e_transactionId = ''T1'', e_accountId = ''A'', e_amount = Fin 1000,
             e_direction = DEBIT\<rparr>,
            \<lparr>e_id = ''uuid-'', e_transactionId = ''T1'', e_accountId = ''B'', e_amount = Fin 1000,
             e_direction = CREDIT\<rparr>]\<rparr>,
        [GetAccount ''A'', GetAccount ''B'', CreateWithBalanceUpdates])"
    by code_simp
  have n: "no_id None"
    by (simp add: no_id_def)
  from response_preserves_input [OF r] r n
  show ?thesis by (simp add: no_id_def draws_before_def uuid_supply_def ledger_def)
qed

section \<open>Rejection at the boundary\<close>

lemma too_few_entries_issue:
  "length (ti_entries data) < 2 \<Longrightarrow>
     too_small [Field ''entries''] \<in> set (createTransactionSchema uuid data)"
  by (simp add: createTransactionSchema_def)

lemma entry_issue:
  assumes "i < length (ti_entries data)"
    and "x \<in> set (transactionEntrySchema uuid (i, ti_entries data ! i))"
  shows "x \<in> set (createTransactionSchema uuid data)"
proof -
  from assms(1) have "(i, ti_entries data ! i) \<in> set (enumerate 0 (ti_entries data))"
    by (simp add: in_set_enumerate_eq)
  with assms(2) show ?thesis
    by (auto simp: createTransactionSchema_def)
qed

lemma nonpositive_amount_issue:
  assumes "i < length (ti_entries data)"
    and "ei_amount (ti_entries data ! i) = Fin q" and "q \<le> 0"
  shows "too_small [Field ''entries'', Index i, Field ''amount'']
           \<in> set (createTransactionSchema uuid data)"
  using assms(2,3) by (intro entry_issue [OF assms(1)]) (simp add: transactionEntrySchema_def)

lemma negative_infinity_issue:
  assumes "i < length (ti_entries data)" and "ei_amount (ti_entries data ! i) = NInf"
  shows "invalid_type [Field ''entries'', Index i, Field ''amount'']
           \<in> set (createTransactionSchema uuid data)"
  using assms(2) by (intro entry_issue [OF assms(1)]) (simp add: transactionEntrySchema_def)

lemma transactionsApp_rejects:
  "x \<in> set (createTransactionSchema uuid data) \<Longrightarrow>
     transactionsApp uuid rnd now d data
       = (BadRequest_issues (createTransactionSchema uuid data), d, [])"
  by (auto simp: transactionsApp_def Let_def)

text \<open>
  Claim C8. A request whose entries list has fewer than two elements, or one of whose
  entries has an amount that is zero or negative, is answered at the boundary with the
  validator's issues (the too-small issue of the list, the too-small issue of that
  amount; for an amount of minus infinity the issue of a number that is not finite): the
  service is not called, so no call is made on the store and the database is unchanged.
\<close>

theorem boundary_rejects_short_or_nonpositive:
  "(length (ti_entries data) < 2 \<longrightarrow>
      transactionsApp uuid rnd now d data
        = (BadRequest_issues (createTransactionSchema uuid data), d, [])
      \<and> too_small [Field ''entries''] \<in> set (createTransactionSchema uuid data))
   \<and> (i < length (ti_entries data) \<and> ei_amount (ti_entries data ! i) = Fin q \<and> q \<le> 0 \<longrightarrow>
      transactionsApp uuid rnd now d data
        = (BadRequest_issues (createTransactionSchema uuid data), d, [])
      \<and> too_small [Field ''entries'', Index i, Field ''amount'']
           \<in> set (createTransactionSchema uuid data))
   \<and> (i < length (ti_entries data) \<and> ei_amount (ti_entries data ! i) = NInf \<longrightarrow>
      transactionsApp uuid rnd now d data
        = (BadRequest_issues (createTransactionSchema uuid data), d, [])
      \<and> invalid_type [Field ''entries'', Index i, Field ''amount'']
           \<in> set (createTransactionSchema uuid data))"
  using too_few_entries_issue [of data uuid] nonpositive_amount_issue [of i data q uuid]
    negative_infinity_issue [of i data uuid]
    transactionsApp_rejects [of _ uuid data rnd now d]
  by blast

text \<open>A single entry; an amount of zero; a negative amount; minus infinity.\<close>

theorem boundary_rejects_short_or_nonpositive_witness:
  "length (ti_entries (posting [entry ''A'' (Fin 1000) DEBIT])) < 2
   \<and> transactionsApp (\<lambda>s. True) uuid_supply 0 ledger (posting [entry ''A'' (Fin 1000) DEBIT])
       = (BadRequest_issues [too_small [Field ''entries'']], ledger, [])
   \<and> 1 < length (ti_entries (posting [entry ''A'' (Fin 1000) DEBIT, entry ''B'' (Fin 0) CREDIT]))
   \<and> ei_amount (ti_entries (posting [entry ''A'' (Fin 1000) DEBIT, entry ''B'' (Fin 0) CREDIT]) ! 1)
       = Fin 0
   \<and> transactionsApp (\<lambda>s. True) uuid_supply 0 ledger
        (posting [entry ''A'' (Fin 1000) DEBIT, entry ''B'' (Fin 0) CREDIT])
       = (BadRequest_issues [too_small [Field ''entries'', Index 1, Field ''amount'']], ledger, [])
   \<and> transactionsApp (\<lambda>s. True) uuid_supply 0 ledger
        (posting [entry ''A'' (Fin 1000) DEBIT, entry ''B'' (Fin (- 5)) CREDIT])
       = (BadRequest_issues [too_small [Field ''entries'', Index 1, Field ''amount'']], ledger, [])
   \<and> transactionsApp (\<lambda>s. True) uuid_supply 0 ledger
        (posting [entry ''A'' (Fin 1000) DEBIT, entry ''B'' NInf CREDIT])
       = (BadRequest_issues [invalid_type [Field ''entries'', Index 1, Field ''amount'']], ledger, [])"
proof -
  have l: "length (ti_entries (posting [entry ''A'' (Fin 1000) DEBIT])) < 2"
    by (simp add: posting_def)
  have s1: "createTransactionSchema (\<lambda>s. True) (posting [entry ''A'' (Fin 1000) DEBIT])
      = [too_small [Field ''entries'']]"
    by (simp add: createTransactionSchema_def transactionEntrySchema_def posting_def entry_def
          enumerate_eq_zip)
  have i: "1 < length (ti_entries (posting [entry ''A'' (Fin 1000) DEBIT, entry ''B'' (Fin 0) CREDIT]))"
    by (simp add: posting_def)
  have a: "ei_amount (ti_entries (posting [entry ''A'' (Fin 1000) DEBIT, entry ''B'' (Fin 0) CREDIT]) ! 1)
      = Fin 0"
    by (simp add: posting_def entry_def)
  have s2: "createTransactionSchema (\<lambda>s. True)
        (posting [entry ''A'' (Fin 1000) DEBIT, entry ''B'' (Fin 0) CREDIT])
      = [too_small [Field ''entries'', Index 1, Field ''amount'']]"
    by (simp add: createTransactionSchema_def transactionEntrySchema_def posting_def entry_def)
  have i3: "1 < length (ti_entries (posting [entry ''A'' (Fin 1000) DEBIT, entry ''B'' (Fin (- 5)) CREDIT]))"
    by (simp add: posting_def)
  have a3: "ei_amount (ti_entries (posting [entry ''A'' (Fin 1000) DEBIT, entry ''B'' (Fin (- 5)) CREDIT]) ! 1)
      = Fin (- 5)"
    by (simp add: posting_def entry_def)
  have s3: "createTransactionSchema (\<lambda>s. True)
        (posting [entry ''A'' (Fin 1000) DEBIT, entry ''B'' (Fin (- 5)) CREDIT])
      = [too_small [Field ''entries'', Index 1, Field ''amount'']]"
    by (simp add: createTransactionSchema_def transactionEntrySchema_def posting_def entry_def)
  have i4: "1 < length (ti_entries (posting [entry ''A'' (Fin 1000) DEBIT, entry ''B'' NInf CREDIT]))"
    by (simp add: posting_def)
  have a4: "ei_amount (ti_entries (posting [entry ''A'' (Fin 1000) DEBIT, entry ''B'' NInf CREDIT]) ! 1)
      = NInf"
    by (simp add: posting_def entry_def)
  have s4: "createTransactionSchema (\<lambda>s. True)
        (posting [entry ''A'' (Fin 1000) DEBIT, entry ''B'' NInf CREDIT])
      = [invalid_type [Field ''entries'', Index 1, Field ''amount'']]"
    by (simp add: createTransactionSchema_def transactionEntrySchema_def posting_def entry_def)
  from boundary_rejects_short_or_nonpositive [where data = "posting [entry ''A'' (Fin 1000) DEBIT]"
      and uuid = "\<lambda>s. True" and rnd = uuid_supply and now = 0 and d = ledger] l s1
  have r1: "transactionsApp (\<lambda>s. True) uuid_supply 0 ledger (posting [entry ''A'' (Fin 1000) DEBIT])
       = (BadRequest_issues [too_small [Field ''entries'']], ledger, [])"
    by simp
  from boundary_rejects_short_or_nonpositive [where i = 1 and q = 0
      and data = "posting [entry ''A'' (Fin 1000) DEBIT, entry ''B'' (Fin 0) CREDIT]"
      and uuid = "\<lambda>s. True" and rnd = uuid_supply and now = 0 and d = ledger] i a s2
  have r2: "transactionsApp (\<lambda>s. True) uuid_supply 0 ledger
        (posting [entry ''A'' (Fin 1000) DEBIT, entry ''B'' (Fin 0) CREDIT])
       = (BadRequest_issues [too_small [Field ''entries'', Index 1, Field ''amount'']], ledger, [])"
    by simp
  from boundary_rejects_short_or_nonpositive [where i = 1 and q = "- 5"
      and data = "posting [entry ''A'' (Fin 1000) DEBIT, entry ''B'' (Fin (- 5)) CREDIT]"
      and uuid = "\<lambda>s. True" and rnd = uuid_supply and now = 0 and d = ledger] i3 a3 s3
  have r3: "transactionsApp (\<lambda>s. True) uuid_supply 0 ledger
        (posting [entry ''A'' (Fin 1000) DEBIT, entry ''B'' (Fin (- 5)) CREDIT])
       = (BadRequest_issues [too_small [Field ''entries'', Index 1, Field ''amount'']], ledger, [])"
    by simp
  from boundary_rejects_short_or_nonpositive [where i = 1
      and data = "posting [entry ''A'' (Fin 1000) DEBIT, entry ''B'' NInf CREDIT]"
      and uuid = "\<lambda>s. True" and rnd = uuid_supply and now = 0 and d = ledger] i4 a4 s4
  have r4: "transactionsApp (\<lambda>s. True) uuid_supply 0 ledger
        (posting [entry ''A'' (Fin 1000) DEBIT, entry ''B'' NInf CREDIT])
       = (BadRequest_issues [invalid_type [Field ''entries'', Index 1, Field ''amount'']], ledger, [])"
    by simp
  from l i a r1 r2 r3 r4 show ?thesis by blast
qed

end
